theory Spec2Isabelle
  imports Main "HOL-Library.Sublist"
begin

section \<open>Data model\<close>

text \<open>
  Strings are lists of \<^typ>\<open>char\<close>; a character is read as one UTF-16 code unit below
  256 (ASCII and Latin-1), which is the part of a JavaScript string that HOL's characters
  represent. Numbers are integers: the counts, limits and lengths of the program are whole
  numbers (\<open>NaN\<close> and fractions are outside the model).
\<close>

text \<open>\<open>EmailAttachment\<close> of \<open>types/index.ts\<close> (the fields the attachment query selects).\<close>

record EmailAttachment =
  attachment_id :: string
  name :: string
  contentType :: string
  isInline :: bool
  contentBytes :: "string option"

text \<open>
  \<open>EmailMessage\<close>: the fields the downloader reads or writes. The remaining fields of the
  interface travel with the record unread. \<open>attachments\<close> is optional in the source:
  \<open>None\<close> is the absent property.
\<close>

record EmailMessage =
  email_id :: string
  subject :: string
  receivedDateTime :: string
  hasAttachments :: bool
  attachments :: "EmailAttachment list option"

record MailFolder =
  folder_id :: string
  displayName :: string

text \<open>
  A JavaScript \<open>Date\<close>: either a valid instant, kept as its \<open>toISOString()\<close> rendering,
  or \<open>Invalid Date\<close>, on which \<open>toISOString()\<close> throws a \<open>RangeError\<close>.
\<close>

datatype js_date = ValidDate string | InvalidDate

record DownloadOptions =
  folder :: string
  limit :: int
  fromDate :: "js_date option"
  toDate :: "js_date option"
  outputPath :: string
  includeAttachments :: bool
  batchSize :: "int option"

text \<open>
  What \<open>getFolderId\<close> can return: a provider folder identifier, or, for a name that
  a plain object inherits from \<open>Object.prototype\<close>, that inherited (non-string) value.
\<close>

datatype folder_ref = FolderId string | InheritedProperty string

text \<open>Every exception the modelled code throws or propagates.\<close>

datatype error =
    NoValidAccessToken
  | OutputDirectoryFailed
  | FolderNotFound string
  | RequestFailed string
  | InvalidTimeValue
  | WriteFailed
  | ExportFailed string

text \<open>The HTTP requests the downloader issues, with the parameters that vary.\<close>

datatype request =
    FolderLookup string
  | CountQuery folder_ref "string option"
  | PageQuery folder_ref "string option" int "int option"
  | AttachmentQuery string

text \<open>The body of the count response: a number, or anything else.\<close>

datatype count_data = Number int | NotANumber

text \<open>What a file of the staging area holds.\<close>

datatype file_content = EmailJson EmailMessage int | RawText string

text \<open>
  Calls to the logger that report a problem, and the progress lines of the loop. Spinner
  texts, banners and success lines are display only and are not recorded.
\<close>

datatype log_entry =
    Debug string
  | Warn string
  | Error string
  | Progress int int

text \<open>
  \<open>expiresOn\<close> of a token as \<open>getCachedToken\<close> hands it out: absent (falsy in the
  cache file), a \<open>Date\<close> that is \<open>Invalid Date\<close>, or an instant in milliseconds.
\<close>

datatype expiry = NoExpiry | InvalidExpiry | ExpiresAt int

record AuthToken =
  accessToken :: string
  refreshToken :: "string option"
  expiresOn :: expiry
  account :: string

text \<open>The result of MSAL's \<open>acquireTokenSilent\<close>.\<close>

record AuthResult =
  result_accessToken :: string
  result_expiresOn :: expiry
  result_account :: string

text \<open>
  The observable world: the requests issued so far (oldest first), the files on disk,
  the number of clock reads so far, the log, and the token cache file as
  \<open>getCachedToken\<close> reads it (\<open>None\<close>: no file, or an unreadable one).
\<close>

record world =
  requests :: "request list"
  files :: "string \<rightharpoonup> file_content"
  ticks :: nat
  console :: "log_entry list"
  tokenCache :: "AuthToken option"

text \<open>
  The external collaborators, taken as parameters: the remote mailbox API (each answer may
  depend on the requests seen before), the date formatter of \<open>date-fns\<close> (\<open>None\<close>: it
  throws on an invalid date), the clock (the value of the n-th read, in milliseconds),
  the disk (whether a write of a content to a path succeeds in a given state), and MSAL
  (whether \<open>initializeMsal\<close> succeeds, what \<open>acquireTokenSilent\<close> answers, whether the
  token cache file can be written).
\<close>

record env =
  folderApi :: "request list \<Rightarrow> string \<Rightarrow> error + MailFolder list"
  countApi :: "request list \<Rightarrow> folder_ref \<Rightarrow> string option \<Rightarrow> error + count_data"
  pageApi :: "request list \<Rightarrow> folder_ref \<Rightarrow> string option \<Rightarrow> int \<Rightarrow> int option
                \<Rightarrow> error + EmailMessage list"
  attachmentApi :: "request list \<Rightarrow> string \<Rightarrow> error + EmailAttachment list"
  formatDate :: "string \<Rightarrow> string option"
  clock :: "nat \<Rightarrow> int"
  diskAccepts :: "(string \<rightharpoonup> file_content) \<Rightarrow> string \<Rightarrow> file_content \<Rightarrow> bool"
  msalInit :: bool
  acquireTokenSilent :: "AuthToken \<Rightarrow> error + AuthResult option"
  cacheWritable :: bool

section \<open>Staging: file names and the batch save\<close>

text \<open>The character classes of the two regular expressions in \<open>generateEmailFileName\<close>.\<close>

definition is_alnum :: "char \<Rightarrow> bool" where
  "is_alnum c = (let n = (of_char c :: nat) in
     (97 \<le> n \<and> n \<le> 122) \<or> (65 \<le> n \<and> n \<le> 90) \<or> (48 \<le> n \<and> n \<le> 57))"

text \<open>\<open>\s\<close> on code units below 256: tab, LF, VT, FF, CR, space and no-break space.\<close>

definition is_space :: "char \<Rightarrow> bool" where
  "is_space c = (let n = (of_char c :: nat) in (9 \<le> n \<and> n \<le> 13) \<or> n = 32 \<or> n = 160)"

definition is_safe :: "char \<Rightarrow> bool" where
  "is_safe c = (is_alnum c \<or> c = CHR ''-'' \<or> c = CHR ''_'')"

text \<open>\<open>.replace(/[^a-zA-Z0-9\-_\s]/g, "")\<close>\<close>

definition strip_unsafe :: "string \<Rightarrow> string" where
  "strip_unsafe s = filter (\<lambda>c. is_safe c \<or> is_space c) s"

text \<open>\<open>.replace(/\s+/g, "_")\<close>: every maximal run of whitespace becomes one underscore.\<close>

function collapse_ws :: "string \<Rightarrow> string" where
  "collapse_ws [] = []"
| "collapse_ws (c # cs) =
     (if is_space c then CHR ''_'' # collapse_ws (dropWhile is_space cs)
      else c # collapse_ws cs)"
  by pat_completeness auto
termination
  by (relation "measure length") (auto simp: less_Suc_eq_le length_dropWhile_le)

text \<open>The subject slug: strip, collapse, \<open>.substring(0, 50)\<close>.\<close>

definition subject_slug :: "string \<Rightarrow> string" where
  "subject_slug s = take 50 (collapse_ws (strip_unsafe s))"

text \<open>
  \<open>generateEmailFileName\<close>. The date is formatted first, so an invalid
  \<open>receivedDateTime\<close> throws before the subject is touched.
\<close>

definition generateEmailFileName :: "env \<Rightarrow> EmailMessage \<Rightarrow> error + string" where
  "generateEmailFileName E email =
     (case formatDate E (receivedDateTime email) of
        None \<Rightarrow> Inl InvalidTimeValue
      | Some date \<Rightarrow>
          Inr (date @ ''_'' @ subject_slug (subject email) @ ''_'' @ email_id email @ ''.json''))"

text \<open>
  \<open>path.join\<close> of a directory and a file name, for a directory written without a
  trailing separator (no \<open>.\<close>/\<open>..\<close> normalisation is applied).
\<close>

definition join :: "string \<Rightarrow> string \<Rightarrow> string" where
  "join dir fileName = dir @ ''/'' @ fileName"

text \<open>\<open>Bun.write\<close>: the file holds the new content, or the write throws and nothing changes.\<close>

definition Bun_write :: "env \<Rightarrow> string \<Rightarrow> file_content \<Rightarrow> world \<Rightarrow> error + world" where
  "Bun_write E path content w =
     (if diskAccepts E (files w) path content
      then Inr (w\<lparr>files := (files w)(path \<mapsto> content)\<rparr>)
      else Inl WriteFailed)"

definition logger :: "log_entry \<Rightarrow> world \<Rightarrow> world" where
  "logger entry w = w\<lparr>console := console w @ [entry]\<rparr>"

text \<open>
  The body of the loop in \<open>saveEmailsBatch\<close>: the \<open>try\<close> block for one email. The
  \<open>catch\<close> logs a warning and the loop goes on.
\<close>

definition saveEmail :: "env \<Rightarrow> string \<Rightarrow> EmailMessage \<Rightarrow> world \<Rightarrow> world" where
  "saveEmail E outPath email w =
     (case generateEmailFileName E email of
        Inl err \<Rightarrow> logger (Warn (''Failed to save email '' @ email_id email)) w
      | Inr fileName \<Rightarrow>
          (let filePath = join outPath fileName;
               downloadedAt = clock E (ticks w);
               w1 = w\<lparr>ticks := Suc (ticks w)\<rparr>
           in case Bun_write E filePath (EmailJson email downloadedAt) w1 of
                Inl err \<Rightarrow> logger (Warn (''Failed to save email '' @ email_id email)) w1
              | Inr w2 \<Rightarrow> w2))"

fun saveEmailsBatch :: "env \<Rightarrow> EmailMessage list \<Rightarrow> string \<Rightarrow> world \<Rightarrow> world" where
  "saveEmailsBatch E [] outPath w = w"
| "saveEmailsBatch E (email # emails) outPath w =
     saveEmailsBatch E emails outPath (saveEmail E outPath email w)"

section \<open>The fetch engine\<close>

subsection \<open>Folder resolution\<close>

text \<open>The own properties of the \<open>specialFolders\<close> object literal.\<close>

definition specialFolders :: "(string \<times> string) list" where
  "specialFolders =
     [(''inbox'', ''inbox''), (''sent'', ''sentitems''), (''drafts'', ''drafts''),
      (''deleted'', ''deleteditems''), (''junk'', ''junkemail'')]"

text \<open>
  The properties every plain object inherits from \<open>Object.prototype\<close>; each is a
  function or an object, hence truthy.
\<close>

definition objectPrototypeKeys :: "string list" where
  "objectPrototypeKeys =
     [''constructor'', ''__proto__'', ''hasOwnProperty'', ''isPrototypeOf'',
      ''propertyIsEnumerable'', ''toLocaleString'', ''toString'', ''valueOf'',
      ''__defineGetter__'', ''__defineSetter__'', ''__lookupGetter__'', ''__lookupSetter__'']"

text \<open>\<open>specialFolders[key]\<close>: own properties first, then the prototype; \<open>None\<close> is undefined.\<close>

definition specialFolders_get :: "string \<Rightarrow> folder_ref option" where
  "specialFolders_get key =
     (case map_of specialFolders key of
        Some v \<Rightarrow> Some (FolderId v)
      | None \<Rightarrow> if key \<in> set objectPrototypeKeys then Some (InheritedProperty key) else None)"

text \<open>
  \<open>toLowerCase\<close> on code units below 256: A-Z, and the Latin-1 capitals
  U+00C0..U+00DE without the multiplication sign U+00D7.
\<close>

definition lower_char :: "char \<Rightarrow> char" where
  "lower_char c = (let n = (of_char c :: nat) in
     if (65 \<le> n \<and> n \<le> 90) \<or> (192 \<le> n \<and> n \<le> 222 \<and> n \<noteq> 215)
     then char_of (n + 32) else c)"

definition toLowerCase :: "string \<Rightarrow> string" where
  "toLowerCase s = map lower_char s"

definition issue :: "request \<Rightarrow> world \<Rightarrow> world" where
  "issue r w = w\<lparr>requests := requests w @ [r]\<rparr>"

text \<open>
  \<open>getFolderId\<close>. The lookup is filtered by the name as the caller wrote it; the
  \<open>catch\<close> logs and rethrows.
\<close>

definition getFolderId :: "env \<Rightarrow> string \<Rightarrow> world \<Rightarrow> (error + folder_ref) \<times> world" where
  "getFolderId E folderName w =
     (let normalizedFolderName = toLowerCase folderName in
      case specialFolders_get normalizedFolderName of
        Some v \<Rightarrow> (Inr v, w)
      | None \<Rightarrow>
          (let w1 = issue (FolderLookup folderName) w in
           case folderApi E (requests w) folderName of
             Inl err \<Rightarrow> (Inl err, logger (Error (''Failed to find folder '' @ folderName)) w1)
           | Inr folders \<Rightarrow>
               (case folders of
                  [] \<Rightarrow> (Inl (FolderNotFound folderName),
                         logger (Error (''Failed to find folder '' @ folderName)) w1)
                | f # _ \<Rightarrow> (Inr (FolderId (folder_id f)), w1))))"

subsection \<open>The count query\<close>

fun join_with :: "string \<Rightarrow> string list \<Rightarrow> string" where
  "join_with sep [] = []"
| "join_with sep [x] = x"
| "join_with sep (x # y # ys) = x @ sep @ join_with sep (y # ys)"

text \<open>\<open>buildFilter\<close>; \<open>toISOString\<close> throws on an invalid date.\<close>

definition buildFilter :: "DownloadOptions \<Rightarrow> error + string option" where
  "buildFilter options =
     (if fromDate options = Some InvalidDate \<or> toDate options = Some InvalidDate
      then Inl InvalidTimeValue
      else
        (let filters =
               (case fromDate options of
                  Some (ValidDate fromDateStr) \<Rightarrow> [''receivedDateTime ge '' @ fromDateStr]
                | _ \<Rightarrow> []) @
               (case toDate options of
                  Some (ValidDate toDateStr) \<Rightarrow> [''receivedDateTime le '' @ toDateStr]
                | _ \<Rightarrow> [])
         in Inr (if length filters > 0 then Some (join_with '' and '' filters) else None)))"

text \<open>\<open>getEmailCount\<close>: the count, 0 for a body that is not a number, clamped to the limit.\<close>

definition getEmailCount ::
  "env \<Rightarrow> folder_ref \<Rightarrow> DownloadOptions \<Rightarrow> world \<Rightarrow> (error + int) \<times> world" where
  "getEmailCount E folderId options w =
     (case buildFilter options of
        Inl err \<Rightarrow> (Inl err, logger (Error ''Failed to get email count'') w)
      | Inr filt \<Rightarrow>
          (let w1 = issue (CountQuery folderId filt) w in
           case countApi E (requests w) folderId filt of
             Inl err \<Rightarrow> (Inl err, logger (Error ''Failed to get email count'') w1)
           | Inr data \<Rightarrow>
               (let count = (case data of Number n \<Rightarrow> n | NotANumber \<Rightarrow> 0)
                in (Inr (min count (limit options)), w1))))"

subsection \<open>Pages and attachments\<close>

text \<open>\<open>fetchEmailAttachments\<close>: any failure is logged at debug level and becomes \<open>[]\<close>.\<close>

definition fetchEmailAttachments ::
  "env \<Rightarrow> string \<Rightarrow> world \<Rightarrow> EmailAttachment list \<times> world" where
  "fetchEmailAttachments E emailId w =
     (let w1 = issue (AttachmentQuery emailId) w in
      case attachmentApi E (requests w) emailId of
        Inl err \<Rightarrow> ([], logger (Debug (''Failed to fetch attachments for email '' @ emailId)) w1)
      | Inr value \<Rightarrow> (value, w1))"

text \<open>The \<open>for\<close> loop of \<open>fetchEmailBatch\<close> that fills in the attachments, in page order.\<close>

fun fetchAttachmentsFor :: "env \<Rightarrow> EmailMessage list \<Rightarrow> world \<Rightarrow> EmailMessage list \<times> world" where
  "fetchAttachmentsFor E [] w = ([], w)"
| "fetchAttachmentsFor E (email # emails) w =
     (if hasAttachments email then
        (let (atts, w1) = fetchEmailAttachments E (email_id email) w;
             (rest, w2) = fetchAttachmentsFor E emails w1
         in (email\<lparr>attachments := Some atts\<rparr> # rest, w2))
      else
        (let (rest, w2) = fetchAttachmentsFor E emails w
         in (email # rest, w2)))"

text \<open>\<open>fetchEmailBatch\<close>: one page request (\<open>$top\<close>, and \<open>$skip\<close> when there is a token).\<close>

definition fetchEmailBatch ::
  "env \<Rightarrow> folder_ref \<Rightarrow> DownloadOptions \<Rightarrow> int \<Rightarrow> int option \<Rightarrow> world
     \<Rightarrow> (error + EmailMessage list) \<times> world" where
  "fetchEmailBatch E folderId options bSize skipToken w =
     (case buildFilter options of
        Inl err \<Rightarrow> (Inl err, logger (Error ''Failed to fetch email batch'') w)
      | Inr filt \<Rightarrow>
          (let w1 = issue (PageQuery folderId filt bSize skipToken) w in
           case pageApi E (requests w) folderId filt bSize skipToken of
             Inl err \<Rightarrow> (Inl err, logger (Error ''Failed to fetch email batch'') w1)
           | Inr emails \<Rightarrow>
               if includeAttachments options
               then (let (emails', w2) = fetchAttachmentsFor E emails w1 in (Inr emails', w2))
               else (Inr emails, w1)))"

text \<open>
  \<open>getNextPageToken\<close>: the count so far, which the source renders as a decimal string;
  the token is kept as the number it spells.
\<close>

definition getNextPageToken :: "int \<Rightarrow> int \<Rightarrow> int" where
  "getNextPageToken currentCount bSize = currentCount"

subsection \<open>The download loop\<close>

text \<open>
  The \<open>while\<close> loop of \<open>downloadEmailsBatch\<close>, with its variables \<open>downloadedCount\<close> and
  \<open>skipToken\<close> as arguments. An exception of \<open>fetchEmailBatch\<close> leaves the loop.
\<close>

function downloadLoop ::
  "env \<Rightarrow> folder_ref \<Rightarrow> DownloadOptions \<Rightarrow> int \<Rightarrow> int \<Rightarrow> int \<Rightarrow> int option \<Rightarrow> world
     \<Rightarrow> (error + unit) \<times> world" where
  "downloadLoop E folderId options totalEmails bSize downloadedCount skipToken w =
     (if downloadedCount < totalEmails \<and> downloadedCount < limit options then
        (let remainingEmails =
               min bSize (min (limit options - downloadedCount) (totalEmails - downloadedCount))
         in case fetchEmailBatch E folderId options remainingEmails skipToken w of
              (Inl err, w1) \<Rightarrow> (Inl err, w1)
            | (Inr emails, w1) \<Rightarrow>
                if length emails = 0 then (Inr (), w1)
                else
                  (let w2 = saveEmailsBatch E emails (outputPath options) w1;
                       downloadedCount' = downloadedCount + int (length emails);
                       skipToken' =
                         (if int (length emails) = remainingEmails
                          then Some (getNextPageToken downloadedCount' bSize) else None);
                       w3 = logger (Progress downloadedCount' totalEmails) w2
                   in downloadLoop E folderId options totalEmails bSize
                        downloadedCount' skipToken' w3))
      else (Inr (), w))"
  by pat_completeness auto
termination
  by (relation "measure (\<lambda>(E, folderId, options, totalEmails, bSize, downloadedCount, skipToken, w).
        nat (totalEmails - downloadedCount))") auto

declare downloadLoop.simps [simp del]

text \<open>\<open>downloadEmailsBatch\<close>: \<open>options.batchSize || 50\<close>, then the loop from 0 without a token.\<close>

definition downloadEmailsBatch ::
  "env \<Rightarrow> folder_ref \<Rightarrow> DownloadOptions \<Rightarrow> int \<Rightarrow> world \<Rightarrow> (error + unit) \<times> world" where
  "downloadEmailsBatch E folderId options totalEmails w =
     (let bSize = (case batchSize options of
                     None \<Rightarrow> 50
                   | Some b \<Rightarrow> if b = 0 then 50 else b)
      in downloadLoop E folderId options totalEmails bSize 0 None w)"

section \<open>The credential provider\<close>

text \<open>\<open>getCachedToken\<close>: the parsed cache file, or null.\<close>

definition getCachedToken :: "world \<Rightarrow> AuthToken option" where
  "getCachedToken w = tokenCache w"

text \<open>
  \<open>isTokenValid\<close>. The clock is read only when the token has an access token and an
  expiry; a comparison with \<open>Invalid Date\<close> is false.
\<close>

definition isTokenValid :: "env \<Rightarrow> AuthToken \<Rightarrow> world \<Rightarrow> bool \<times> world" where
  "isTokenValid E token w =
     (if accessToken token = [] \<or> expiresOn token = NoExpiry then (False, w)
      else
        (let fiveMinutesFromNow = clock E (ticks w) + 5 * 60 * 1000;
             w1 = w\<lparr>ticks := Suc (ticks w)\<rparr>
         in case expiresOn token of
              ExpiresAt t \<Rightarrow> (t > fiveMinutesFromNow, w1)
            | _ \<Rightarrow> (False, w1)))"

definition isAuthenticated :: "env \<Rightarrow> world \<Rightarrow> bool \<times> world" where
  "isAuthenticated E w =
     (case getCachedToken w of
        None \<Rightarrow> (False, w)
      | Some cachedToken \<Rightarrow> isTokenValid E cachedToken w)"

text \<open>
  \<open>cacheToken\<close>: a failed write is a warning. An \<open>Invalid Date\<close> is written as JSON
  \<open>null\<close>, so it reads back as no expiry.
\<close>

definition cacheToken :: "env \<Rightarrow> AuthToken \<Rightarrow> world \<Rightarrow> world" where
  "cacheToken E token w =
     (if cacheWritable E
      then w\<lparr>tokenCache :=
             Some (token\<lparr>expiresOn :=
                     (case expiresOn token of InvalidExpiry \<Rightarrow> NoExpiry | e \<Rightarrow> e)\<rparr>)\<rparr>
      else logger (Warn ''Failed to cache token'') w)"

text \<open>
  \<open>getAccessToken\<close>: the cached token when it is valid; otherwise a silent refresh when
  the cached token carries a non-empty refresh token; otherwise null. A failure of
  \<open>initializeMsal\<close> is caught by the outer \<open>catch\<close>.
\<close>

definition getAccessToken :: "env \<Rightarrow> world \<Rightarrow> string option \<times> world" where
  "getAccessToken E w =
     (if \<not> msalInit E then (None, logger (Error ''Error getting access token'') w)
      else
        (let noToken = (\<lambda>w'. (None, logger (Warn ''No valid token available'') w')) in
         case getCachedToken w of
           None \<Rightarrow> noToken w
         | Some cachedToken \<Rightarrow>
             (let (valid, w1) = isTokenValid E cachedToken w in
              if valid then (Some (accessToken cachedToken), w1)
              else if refreshToken cachedToken \<noteq> None \<and> refreshToken cachedToken \<noteq> Some []
              then
                (case acquireTokenSilent E cachedToken of
                   Inl refreshError \<Rightarrow> noToken (logger (Debug ''Token refresh failed'') w1)
                 | Inr None \<Rightarrow> noToken w1
                 | Inr (Some refreshResult) \<Rightarrow>
                     (Some (result_accessToken refreshResult),
                      cacheToken E
                        \<lparr>accessToken = result_accessToken refreshResult,
                         refreshToken = refreshToken cachedToken,
                         expiresOn = result_expiresOn refreshResult,
                         account = result_account refreshResult\<rparr> w1))
              else noToken w1)))"

section \<open>The download command\<close>

definition ensureOutputDirectory :: "env \<Rightarrow> string \<Rightarrow> world \<Rightarrow> error + world" where
  "ensureOutputDirectory E outPath w =
     (case Bun_write E (join outPath ''.keep'') (RawText []) w of
        Inl err \<Rightarrow> Inl OutputDirectoryFailed
      | Inr w1 \<Rightarrow> Inr w1)"

text \<open>
  \<open>downloadEmails\<close>: token, output directory, folder, count, then the batches. The
  \<open>catch\<close> marks the spinner as failed and rethrows.
\<close>

definition downloadEmails :: "env \<Rightarrow> DownloadOptions \<Rightarrow> world \<Rightarrow> (error + unit) \<times> world" where
  "downloadEmails E options w =
     (case getAccessToken E w of
        (None, w1) \<Rightarrow> (Inl NoValidAccessToken, w1)
      | (Some token, w1) \<Rightarrow>
          if token = [] then (Inl NoValidAccessToken, w1)
          else
            (case ensureOutputDirectory E (outputPath options) w1 of
               Inl err \<Rightarrow> (Inl err, w1)
             | Inr w2 \<Rightarrow>
                 (case getFolderId E (folder options) w2 of
                    (Inl err, w3) \<Rightarrow> (Inl err, w3)
                  | (Inr folderId, w3) \<Rightarrow>
                      (case getEmailCount E folderId options w3 of
                         (Inl err, w4) \<Rightarrow> (Inl err, w4)
                       | (Inr totalEmails, w4) \<Rightarrow>
                           if totalEmails = 0 then (Inr (), w4)
                           else downloadEmailsBatch E folderId options totalEmails w4))))"

section \<open>The full pipeline command\<close>

text \<open>The parsed options of the \<open>full\<close> command (\<open>limit\<close> after \<open>parseInt\<close>, dates after \<open>new Date\<close>).\<close>

record FullOptions =
  opt_folder :: string
  opt_limit :: int
  opt_from :: "js_date option"
  opt_to :: "js_date option"
  opt_output :: string
  opt_compress :: bool

record ExportOptions =
  inputPath :: string
  exportPath :: string
  compress :: bool

text \<open>\<open>rm -rf dir\<close>: every file below the directory is gone.\<close>

definition rm_rf :: "string \<Rightarrow> world \<Rightarrow> world" where
  "rm_rf dir w = w\<lparr>files := (\<lambda>p. if prefix (dir @ ''/'') p then None else files w p)\<rparr>"

text \<open>The options the \<open>full\<close> command builds for its two phases.\<close>

definition fullDownloadOptions :: "FullOptions \<Rightarrow> DownloadOptions" where
  "fullDownloadOptions options =
     \<lparr>folder = opt_folder options, limit = opt_limit options,
      fromDate = opt_from options, toDate = opt_to options,
      outputPath = ''./temp-emails'', includeAttachments = False, batchSize = None\<rparr>"

definition fullExportOptions :: "FullOptions \<Rightarrow> ExportOptions" where
  "fullExportOptions options =
     \<lparr>inputPath = ''./temp-emails'', exportPath = opt_output options,
      compress = opt_compress options\<rparr>"

text \<open>
  The action of the \<open>full\<close> command, returning the exit code. The exporter
  (\<open>MboxExporter.exportToMbox\<close>) is a parameter. \<open>process.exit(1)\<close> ends the run at once;
  any exception of the \<open>try\<close> block reaches the \<open>catch\<close>, which logs and exits with 1.
\<close>

definition full_command ::
  "env \<Rightarrow> (ExportOptions \<Rightarrow> world \<Rightarrow> (error + unit) \<times> world) \<Rightarrow> FullOptions \<Rightarrow> world
     \<Rightarrow> int \<times> world" where
  "full_command E exportToMbox options w =
     (let (isAuth, w1) = isAuthenticated E w in
      if \<not> isAuth then (1, logger (Error ''Not authenticated'') w1)
      else
        (case downloadEmails E (fullDownloadOptions options) w1 of
           (Inl err, w2) \<Rightarrow> (1, logger (Error ''Pipeline error'') w2)
         | (Inr u, w2) \<Rightarrow>
             (case exportToMbox (fullExportOptions options) w2 of
                (Inl err, w3) \<Rightarrow> (1, logger (Error ''Pipeline error'') w3)
              | (Inr u', w3) \<Rightarrow> (0, rm_rf ''./temp-emails'' w3))))"

section \<open>MBOX "From " quoting\<close>

text \<open>
  Modelled from the spec: the MBOX encoder (\<open>src/export/MboxExporter.ts\<close>) is not among
  the sources. A separator-like line begins with the five characters \<open>From \<close>.
\<close>

definition is_From_line :: "string \<Rightarrow> bool" where
  "is_From_line l = prefix ''From '' l"

text \<open>
  Modelled from the spec: the MBOX encoder is not among the sources. The lines the
  quoting rule of section 4.3 applies to: those that begin with \<open>From \<close> after zero or
  more \<open>>\<close>.
\<close>

definition needs_quoting :: "string \<Rightarrow> bool" where
  "needs_quoting l = is_From_line (dropWhile (\<lambda>c. c = CHR ''>'') l)"

text \<open>
  Modelled from the spec: the MBOX encoder is not among the sources. Such a line is
  escaped by prefixing one \<open>>\<close>; every other line is emitted as it is.
\<close>

definition quote_line :: "string \<Rightarrow> string" where
  "quote_line l = (if needs_quoting l then CHR ''>'' # l else l)"

text \<open>
  Modelled from the spec: the MBOX encoder is not among the sources. The lines of a
  content, separated by line feeds.
\<close>

fun split_lines :: "string \<Rightarrow> string list" where
  "split_lines [] = [[]]"
| "split_lines (c # cs) =
     (if c = CHR 0x0A then [] # split_lines cs
      else (case split_lines cs of
              [] \<Rightarrow> [[c]]
            | l # ls \<Rightarrow> (c # l) # ls))"

text \<open>
  Modelled from the spec: the MBOX encoder is not among the sources. The content of an
  entry as it is emitted: every line quoted, the lines joined again.
\<close>

definition quote_content :: "string \<Rightarrow> string" where
  "quote_content s = join_with [CHR 0x0A] (map quote_line (split_lines s))"

section \<open>Concrete inputs\<close>

text \<open>
  A date formatter for a process in the UTC time zone, on Graph timestamps of the form
  \<open>YYYY-MM-DDTHH:MM:SSZ\<close>: the pattern \<open>yyyy-MM-dd_HH-mm-ss\<close>.
\<close>

definition utcFormat :: "string \<Rightarrow> string option" where
  "utcFormat s =
     (if length s = 20 \<and> s ! 10 = CHR ''T'' \<and> s ! 19 = CHR ''Z''
      then Some (take 10 s @ ''_'' @
                 map (\<lambda>c. if c = CHR '':'' then CHR ''-'' else c) (take 8 (drop 11 s)))
      else None)"

text \<open>
  An environment with an empty mailbox, a disk that accepts every write, a clock that
  advances one second per read, and no account for a silent refresh.
\<close>

definition env0 :: env where
  "env0 =
     \<lparr>folderApi = (\<lambda>history folderName. Inr []),
      countApi = (\<lambda>history folderId filt. Inr (Number 0)),
      pageApi = (\<lambda>history folderId filt top skip. Inr []),
      attachmentApi = (\<lambda>history emailId. Inr []),
      formatDate = utcFormat,
      clock = (\<lambda>n. 1000 * int n),
      diskAccepts = (\<lambda>fs path content. True),
      msalInit = True,
      acquireTokenSilent = (\<lambda>token. Inl (RequestFailed ''no account in the cache'')),
      cacheWritable = True\<rparr>"

definition world0 :: world where
  "world0 = \<lparr>requests = [], files = Map.empty, ticks = 0, console = [], tokenCache = None\<rparr>"

definition mail :: "string \<Rightarrow> string \<Rightarrow> EmailMessage" where
  "mail i s =
     \<lparr>email_id = i, subject = s, receivedDateTime = ''2024-01-15T10:30:00Z'',
      hasAttachments = False, attachments = None\<rparr>"

text \<open>A disk on which writing one path fails.\<close>

definition rejectPath :: "string \<Rightarrow> env" where
  "rejectPath p = env0\<lparr>diskAccepts := (\<lambda>fs path content. path \<noteq> p)\<rparr>"

definition threeMails :: "EmailMessage list" where
  "threeMails = [mail ''m1'' ''first'', mail ''m2'' ''second'', mail ''m3'' ''third'']"




text \<open>A mailbox in which two folders carry the display name \<open>Projects\<close>.\<close>

definition twoFolders :: env where
  "twoFolders = env0\<lparr>folderApi := (\<lambda>history folderName.
     if folderName = ''Projects''
     then Inr [\<lparr>folder_id = ''id-1'', displayName = ''Projects''\<rparr>,
               \<lparr>folder_id = ''id-2'', displayName = ''Projects''\<rparr>]
     else Inr [])\<rparr>"

text \<open>
  A mailbox served with \<open>$top\<close>/\<open>$skip\<close> semantics, whose count query answers a
  declared total.
\<close>

definition graphServer :: "EmailMessage list \<Rightarrow> count_data \<Rightarrow> env" where
  "graphServer mailbox declared =
     env0\<lparr>countApi := (\<lambda>history folderId filt. Inr declared),
          pageApi := (\<lambda>history folderId filt top skip.
            Inr (take (nat top) (drop (nat (case skip of None \<Rightarrow> 0 | Some k \<Rightarrow> k)) mailbox)))\<rparr>"

text \<open>A cached token as the device-code flow stores it, valid for an hour.\<close>

definition validToken :: AuthToken where
  "validToken =
     \<lparr>accessToken = ''token'', refreshToken = Some [], expiresOn = ExpiresAt 3600000,
      account = ''user''\<rparr>"

definition signedIn :: world where
  "signedIn = world0\<lparr>tokenCache := Some validToken\<rparr>"

definition inboxOptions :: "int \<Rightarrow> DownloadOptions" where
  "inboxOptions n =
     \<lparr>folder = ''inbox'', limit = n, fromDate = None, toDate = None,
      outputPath = ''./emails'', includeAttachments = False, batchSize = None\<rparr>"

text \<open>The three-message mailbox with a count query that answers something that is not a number.\<close>

definition oddCount :: env where
  "oddCount = graphServer threeMails NotANumber"

text \<open>The decimal digits of a number, and a mailbox of \<open>n\<close> numbered messages.\<close>

fun decimal :: "nat \<Rightarrow> string" where
  "decimal n = (if n < 10 then [char_of (48 + n)]
                else decimal (n div 10) @ [char_of (48 + n mod 10)])"

declare decimal.simps [simp del]

definition numbered :: "nat \<Rightarrow> EmailMessage list" where
  "numbered n = map (\<lambda>k. mail (''msg-'' @ decimal k) ''Weekly update'') [0..<n]"

text \<open>Five messages flagged as carrying attachments, each with one PDF on the server.\<close>

definition pdf :: "string \<Rightarrow> EmailAttachment" where
  "pdf i =
     \<lparr>attachment_id = ''att-'' @ i, name = ''report.pdf'', contentType = ''application/pdf'',
      isInline = False, contentBytes = Some ''JVBERi0=''\<rparr>"

definition flagged :: "string \<Rightarrow> EmailMessage" where
  "flagged i = (mail i ''Report'')\<lparr>hasAttachments := True\<rparr>"

definition fiveFlagged :: "EmailMessage list" where
  "fiveFlagged = [flagged ''m1'', flagged ''m2'', flagged ''m3'', flagged ''m4'', flagged ''m5'']"

text \<open>The five flagged messages; the attachment request for \<open>m3\<close> fails.\<close>

definition flakyAttachments :: env where
  "flakyAttachments =
     (graphServer fiveFlagged (Number 5))\<lparr>attachmentApi := (\<lambda>history emailId.
        if emailId = ''m3'' then Inl (RequestFailed ''503'') else Inr [pdf emailId])\<rparr>"

definition withAttachments :: DownloadOptions where
  "withAttachments = (inboxOptions 1000)\<lparr>includeAttachments := True\<rparr>"

text \<open>An exporter that writes the archive, and one that fails without touching a file.\<close>

definition writingExporter :: "ExportOptions \<Rightarrow> world \<Rightarrow> (error + unit) \<times> world" where
  "writingExporter options w =
     (Inr (), w\<lparr>files := (files w)(exportPath options \<mapsto> RawText ''From MAILER-DAEMON'')\<rparr>)"

definition failingExporter :: "ExportOptions \<Rightarrow> world \<Rightarrow> (error + unit) \<times> world" where
  "failingExporter options w = (Inl (ExportFailed ''disk full''), w)"

definition fullOptions :: FullOptions where
  "fullOptions =
     \<lparr>opt_folder = ''inbox'', opt_limit = 1000, opt_from = None, opt_to = None,
      opt_output = ''./emails.mbox'', opt_compress = False\<rparr>"

text \<open>
  A server whose page requests fail, and a world that holds a unit staged by an earlier
  run.
\<close>

definition failingPages :: env where
  "failingPages = (graphServer threeMails (Number 3))\<lparr>pageApi :=
     (\<lambda>history folderId filt top skip. Inl (RequestFailed ''500''))\<rparr>"

definition earlierRun :: world where
  "earlierRun = signedIn\<lparr>files :=
     [''./temp-emails/2024-01-15_10-30-00_first_m1.json'' \<mapsto>
        EmailJson (mail ''m1'' ''first'') 0]\<rparr>"

text \<open>
  A message body of four lines: one begins with \<open>From \<close>, one with \<open>>From \<close>, two
  with neither.
\<close>

definition letter :: string where
  "letter = ''Hello,'' @ [CHR 0x0A] @ ''From hacker@evil.com now'' @ [CHR 0x0A] @
            ''>From already'' @ [CHR 0x0A] @ ''Fromage is fine''"

section \<open>Properties of the credential provider\<close>





section \<open>Properties of the staging store\<close>

lemma saveEmailsBatch_append:
  "saveEmailsBatch E (xs @ ys) out w = saveEmailsBatch E ys out (saveEmailsBatch E xs out w)"
  by (induction xs arbitrary: w) simp_all

lemma saveEmailsBatch_step:
  assumes "i < length emails"
  shows "saveEmailsBatch E (take (Suc i) emails) out w =
           saveEmail E out (emails ! i) (saveEmailsBatch E (take i emails) out w)"
  using assms by (simp add: take_Suc_conv_app_nth saveEmailsBatch_append)

lemma saveEmailsBatch_split:
  "saveEmailsBatch E emails out w =
     saveEmailsBatch E (drop n emails) out (saveEmailsBatch E (take n emails) out w)"
  by (metis append_take_drop_id saveEmailsBatch_append)

text \<open>
  C7. \<open>saveEmailsBatch\<close> returns a world for every batch: no exception leaves it. When
  the record at position \<open>i\<close> is reached (in the world \<open>wi\<close> left by the records before
  it) and its file name cannot be built or the disk rejects its write, the files stay
  as they are and one warning naming the record is logged; otherwise its file is
  written. In both cases the batch goes on with all the records after position \<open>i\<close>.
\<close>

theorem save_batch_isolates_failures:
  "i < length emails \<longrightarrow>
     (let email = emails ! i;
          wi = saveEmailsBatch E (take i emails) out w;
          wi' = saveEmailsBatch E (take (Suc i) emails) out w;
          warning = Warn (''Failed to save email '' @ email_id email)
      in saveEmailsBatch E emails out w = saveEmailsBatch E (drop (Suc i) emails) out wi' \<and>
         (case generateEmailFileName E email of
            Inl err \<Rightarrow> files wi' = files wi \<and> console wi' = console wi @ [warning]
          | Inr fileName \<Rightarrow>
              if diskAccepts E (files wi) (join out fileName)
                   (EmailJson email (clock E (ticks wi)))
              then files wi' = (files wi)(join out fileName \<mapsto>
                                   EmailJson email (clock E (ticks wi))) \<and>
                   console wi' = console wi
              else files wi' = files wi \<and> console wi' = console wi @ [warning]))"
proof
  assume i: "i < length emails"
  show "let email = emails ! i;
          wi = saveEmailsBatch E (take i emails) out w;
          wi' = saveEmailsBatch E (take (Suc i) emails) out w;
          warning = Warn (''Failed to save email '' @ email_id email)
      in saveEmailsBatch E emails out w = saveEmailsBatch E (drop (Suc i) emails) out wi' \<and>
         (case generateEmailFileName E email of
            Inl err \<Rightarrow> files wi' = files wi \<and> console wi' = console wi @ [warning]
          | Inr fileName \<Rightarrow>
              if diskAccepts E (files wi) (join out fileName)
                   (EmailJson email (clock E (ticks wi)))
              then files wi' = (files wi)(join out fileName \<mapsto>
                                   EmailJson email (clock E (ticks wi))) \<and>
                   console wi' = console wi
              else files wi' = files wi \<and> console wi' = console wi @ [warning])"
    unfolding Let_def saveEmailsBatch_step [OF i]
    by (simp add: saveEmailsBatch_split [of E emails out w "Suc i"] saveEmailsBatch_step [OF i]
          saveEmail_def Bun_write_def logger_def Let_def split: sum.splits)
qed

text \<open>
  The theorem at a batch of three whose second write fails: one warning, the second
  record changes no file, the first and the third record are staged.
\<close>

theorem save_batch_isolates_failures_witness:
  "(1::nat) < length threeMails \<and>
   console (saveEmailsBatch (rejectPath ''out/2024-01-15_10-30-00_second_m2.json'')
              threeMails ''out'' world0) = [Warn ''Failed to save email m2''] \<and>
   files (saveEmailsBatch (rejectPath ''out/2024-01-15_10-30-00_second_m2.json'')
            (take (Suc 1) threeMails) ''out'' world0) =
   files (saveEmailsBatch (rejectPath ''out/2024-01-15_10-30-00_second_m2.json'')
            (take 1 threeMails) ''out'' world0) \<and>
   files (saveEmailsBatch (rejectPath ''out/2024-01-15_10-30-00_second_m2.json'')
            threeMails ''out'' world0) =
     [''out/2024-01-15_10-30-00_first_m1.json'' \<mapsto> EmailJson (mail ''m1'' ''first'') 0,
      ''out/2024-01-15_10-30-00_third_m3.json'' \<mapsto> EmailJson (mail ''m3'' ''third'') 2000]"
  using save_batch_isolates_failures
    [of 1 threeMails "rejectPath ''out/2024-01-15_10-30-00_second_m2.json''" "''out''" world0]
  by (simp add: threeMails_def rejectPath_def env0_def world0_def mail_def utcFormat_def
        saveEmail_def generateEmailFileName_def subject_slug_def strip_unsafe_def is_safe_def
        is_alnum_def is_space_def join_def Bun_write_def logger_def Let_def)

subsection \<open>File names\<close>












subsection \<open>Staging the same record again\<close>

lemma saveEmail_accepted:
  assumes "generateEmailFileName E email = Inr fileName"
    and "diskAccepts E (files w) (join out fileName) (EmailJson email (clock E (ticks w)))"
  shows "saveEmail E out email w =
           w\<lparr>ticks := Suc (ticks w),
             files := (files w)(join out fileName \<mapsto> EmailJson email (clock E (ticks w)))\<rparr>"
  using assms by (simp add: saveEmail_def Bun_write_def Let_def)

text \<open>
  C4 (as amended). Two records that agree in id, \<open>receivedDateTime\<close> and subject slug get
  the same file name. Staging the second where the first is already staged replaces the
  content of that one file and adds no file; staging both in one batch leaves one file,
  holding the record seen last. (The writes are those the disk accepts.) Two records
  that agree in id and \<open>receivedDateTime\<close> but differ in their subject slug get two
  different file names.
\<close>

theorem restaging_overwrites:
  "(email_id e2 = email_id e1 \<and> receivedDateTime e2 = receivedDateTime e1 \<and>
   subject_slug (subject e2) = subject_slug (subject e1) \<and>
   generateEmailFileName E e1 = Inr fileName \<longrightarrow>
     generateEmailFileName E e2 = Inr fileName \<and>
     (files w (join out fileName) = Some (EmailJson e1 t1) \<and>
      diskAccepts E (files w) (join out fileName) (EmailJson e2 (clock E (ticks w))) \<longrightarrow>
        files (saveEmailsBatch E [e2] out w) =
          (files w)(join out fileName \<mapsto> EmailJson e2 (clock E (ticks w))) \<and>
        dom (files (saveEmailsBatch E [e2] out w)) = dom (files w)) \<and>
     (diskAccepts E (files w) (join out fileName) (EmailJson e1 (clock E (ticks w))) \<and>
      diskAccepts E ((files w)(join out fileName \<mapsto> EmailJson e1 (clock E (ticks w))))
        (join out fileName) (EmailJson e2 (clock E (Suc (ticks w)))) \<longrightarrow>
        files (saveEmailsBatch E [e1, e2] out w) =
          (files w)(join out fileName \<mapsto> EmailJson e2 (clock E (Suc (ticks w)))))) \<and>
   (email_id e2 = email_id e1 \<and> receivedDateTime e2 = receivedDateTime e1 \<and>
    subject_slug (subject e2) \<noteq> subject_slug (subject e1) \<and>
    generateEmailFileName E e1 = Inr name1 \<and> generateEmailFileName E e2 = Inr name2 \<longrightarrow>
      name1 \<noteq> name2)"
proof (rule conjI)
  show "email_id e2 = email_id e1 \<and> receivedDateTime e2 = receivedDateTime e1 \<and>
   subject_slug (subject e2) = subject_slug (subject e1) \<and>
   generateEmailFileName E e1 = Inr fileName \<longrightarrow>
     generateEmailFileName E e2 = Inr fileName \<and>
     (files w (join out fileName) = Some (EmailJson e1 t1) \<and>
      diskAccepts E (files w) (join out fileName) (EmailJson e2 (clock E (ticks w))) \<longrightarrow>
        files (saveEmailsBatch E [e2] out w) =
          (files w)(join out fileName \<mapsto> EmailJson e2 (clock E (ticks w))) \<and>
        dom (files (saveEmailsBatch E [e2] out w)) = dom (files w)) \<and>
     (diskAccepts E (files w) (join out fileName) (EmailJson e1 (clock E (ticks w))) \<and>
      diskAccepts E ((files w)(join out fileName \<mapsto> EmailJson e1 (clock E (ticks w))))
        (join out fileName) (EmailJson e2 (clock E (Suc (ticks w)))) \<longrightarrow>
        files (saveEmailsBatch E [e1, e2] out w) =
          (files w)(join out fileName \<mapsto> EmailJson e2 (clock E (Suc (ticks w)))))"
  proof (intro impI, elim conjE)
    assume same: "email_id e2 = email_id e1" "receivedDateTime e2 = receivedDateTime e1"
      "subject_slug (subject e2) = subject_slug (subject e1)"
      and n1: "generateEmailFileName E e1 = Inr fileName"
    have n2: "generateEmailFileName E e2 = Inr fileName"
      using same n1 by (simp add: generateEmailFileName_def split: option.splits)
    have later: "files (saveEmailsBatch E [e2] out w) =
            (files w)(join out fileName \<mapsto> EmailJson e2 (clock E (ticks w))) \<and>
          dom (files (saveEmailsBatch E [e2] out w)) = dom (files w)"
      if "files w (join out fileName) = Some (EmailJson e1 t1)"
        and "diskAccepts E (files w) (join out fileName) (EmailJson e2 (clock E (ticks w)))"
      using that by (auto simp: saveEmail_accepted [OF n2])
    have batch: "files (saveEmailsBatch E [e1, e2] out w) =
            (files w)(join out fileName \<mapsto> EmailJson e2 (clock E (Suc (ticks w))))"
      if "diskAccepts E (files w) (join out fileName) (EmailJson e1 (clock E (ticks w)))"
        and "diskAccepts E ((files w)(join out fileName \<mapsto> EmailJson e1 (clock E (ticks w))))
          (join out fileName) (EmailJson e2 (clock E (Suc (ticks w))))"
      using that by (simp add: saveEmail_accepted [OF n1] saveEmail_accepted [OF n2])
    from n2 later batch show "generateEmailFileName E e2 = Inr fileName \<and>
       (files w (join out fileName) = Some (EmailJson e1 t1) \<and>
        diskAccepts E (files w) (join out fileName) (EmailJson e2 (clock E (ticks w))) \<longrightarrow>
          files (saveEmailsBatch E [e2] out w) =
            (files w)(join out fileName \<mapsto> EmailJson e2 (clock E (ticks w))) \<and>
          dom (files (saveEmailsBatch E [e2] out w)) = dom (files w)) \<and>
       (diskAccepts E (files w) (join out fileName) (EmailJson e1 (clock E (ticks w))) \<and>
        diskAccepts E ((files w)(join out fileName \<mapsto> EmailJson e1 (clock E (ticks w))))
          (join out fileName) (EmailJson e2 (clock E (Suc (ticks w)))) \<longrightarrow>
          files (saveEmailsBatch E [e1, e2] out w) =
            (files w)(join out fileName \<mapsto> EmailJson e2 (clock E (Suc (ticks w)))))"
      by blast
  qed
next
  show "email_id e2 = email_id e1 \<and> receivedDateTime e2 = receivedDateTime e1 \<and>
    subject_slug (subject e2) \<noteq> subject_slug (subject e1) \<and>
    generateEmailFileName E e1 = Inr name1 \<and> generateEmailFileName E e2 = Inr name2 \<longrightarrow>
      name1 \<noteq> name2"
    by (auto simp: generateEmailFileName_def split: option.splits)
qed

text \<open>
  The theorem at a message fetched twice, the second time with a subject that differs
  in stripped characters only.
\<close>

theorem restaging_overwrites_witness:
  "generateEmailFileName env0 (mail ''m1'' ''Quarterly report'') =
     Inr ''2024-01-15_10-30-00_Quarterly_report_m1.json'' \<and>
   generateEmailFileName env0 (mail ''m1'' ''Quarterly  report!'') =
     Inr ''2024-01-15_10-30-00_Quarterly_report_m1.json'' \<and>
   files (saveEmailsBatch env0 [mail ''m1'' ''Quarterly report'', mail ''m1'' ''Quarterly  report!'']
            ''out'' world0) =
     [''out/2024-01-15_10-30-00_Quarterly_report_m1.json'' \<mapsto>
        EmailJson (mail ''m1'' ''Quarterly  report!'') 1000] \<and>
   files (saveEmailsBatch env0 [mail ''m1'' ''Quarterly  report!''] ''out''
            (saveEmailsBatch env0 [mail ''m1'' ''Quarterly report''] ''out'' world0)) =
     [''out/2024-01-15_10-30-00_Quarterly_report_m1.json'' \<mapsto>
        EmailJson (mail ''m1'' ''Quarterly  report!'') 1000]"
  using restaging_overwrites [of "mail ''m1'' ''Quarterly  report!''"
      "mail ''m1'' ''Quarterly report''" env0 "''2024-01-15_10-30-00_Quarterly_report_m1.json''"
      "saveEmailsBatch env0 [mail ''m1'' ''Quarterly report''] ''out'' world0" "''out''" 0]
  by (simp add: env0_def world0_def mail_def utcFormat_def
        saveEmail_def generateEmailFileName_def subject_slug_def strip_unsafe_def is_safe_def
        is_alnum_def is_space_def join_def Bun_write_def logger_def Let_def)

text \<open>
  The claim as stated fails: two records with the same id are not deduplicated when
  their subjects differ; both are staged, under two file names.
\<close>

theorem duplicate_id_counterexample:
  "email_id (mail ''m1'' ''Draft'') = email_id (mail ''m1'' ''Final'') \<and>
   generateEmailFileName env0 (mail ''m1'' ''Draft'') = Inr ''2024-01-15_10-30-00_Draft_m1.json'' \<and>
   generateEmailFileName env0 (mail ''m1'' ''Final'') = Inr ''2024-01-15_10-30-00_Final_m1.json'' \<and>
   files (saveEmailsBatch env0 [mail ''m1'' ''Draft'', mail ''m1'' ''Final''] ''out'' world0) =
     [''out/2024-01-15_10-30-00_Draft_m1.json'' \<mapsto> EmailJson (mail ''m1'' ''Draft'') 0,
      ''out/2024-01-15_10-30-00_Final_m1.json'' \<mapsto> EmailJson (mail ''m1'' ''Final'') 1000]"
  by (simp add: env0_def world0_def mail_def utcFormat_def
        saveEmail_def generateEmailFileName_def subject_slug_def strip_unsafe_def is_safe_def
        is_alnum_def is_space_def join_def Bun_write_def logger_def Let_def)

section \<open>Properties of the fetch engine\<close>

subsection \<open>Folder resolution\<close>

lemma specialFolders_get_own:
  "map_of specialFolders key = Some v \<Longrightarrow> specialFolders_get key = Some (FolderId v)"
  by (simp add: specialFolders_get_def)

lemma specialFolders_get_none:
  "key \<notin> {''inbox'', ''sent'', ''drafts'', ''deleted'', ''junk''} \<Longrightarrow>
   key \<notin> set objectPrototypeKeys \<Longrightarrow> specialFolders_get key = None"
  by (simp add: specialFolders_get_def specialFolders_def)

text \<open>
  C3 (as amended). A name whose lowercased form is one of inbox, sent, drafts, deleted,
  junk resolves to the fixed identifier of the mapping, and the world is unchanged: no
  lookup is issued. For any other name (the names that a plain object inherits from
  \<open>Object.prototype\<close> set aside) exactly one lookup by the display name as written is
  issued; a failed lookup propagates its error, a lookup without a match fails with
  folder-not-found, and a lookup with one or more matches returns the id of the first.
\<close>

theorem folder_resolution:
  "(toLowerCase folderName = ''inbox'' \<longrightarrow>
      getFolderId E folderName w = (Inr (FolderId ''inbox''), w)) \<and>
   (toLowerCase folderName = ''sent'' \<longrightarrow>
      getFolderId E folderName w = (Inr (FolderId ''sentitems''), w)) \<and>
   (toLowerCase folderName = ''drafts'' \<longrightarrow>
      getFolderId E folderName w = (Inr (FolderId ''drafts''), w)) \<and>
   (toLowerCase folderName = ''deleted'' \<longrightarrow>
      getFolderId E folderName w = (Inr (FolderId ''deleteditems''), w)) \<and>
   (toLowerCase folderName = ''junk'' \<longrightarrow>
      getFolderId E folderName w = (Inr (FolderId ''junkemail''), w)) \<and>
   (toLowerCase folderName \<notin> {''inbox'', ''sent'', ''drafts'', ''deleted'', ''junk''} \<and>
    toLowerCase folderName \<notin> set objectPrototypeKeys \<longrightarrow>
      requests (snd (getFolderId E folderName w)) = requests w @ [FolderLookup folderName] \<and>
      fst (getFolderId E folderName w) =
        (case folderApi E (requests w) folderName of
           Inl err \<Rightarrow> Inl err
         | Inr [] \<Rightarrow> Inl (FolderNotFound folderName)
         | Inr (f # fs) \<Rightarrow> Inr (FolderId (folder_id f))))"
proof -
  have own: "getFolderId E folderName w = (Inr (FolderId v), w)"
    if "map_of specialFolders (toLowerCase folderName) = Some v" for v
    using that by (simp add: getFolderId_def specialFolders_get_own)
  have other: "requests (snd (getFolderId E folderName w)) = requests w @ [FolderLookup folderName] \<and>
      fst (getFolderId E folderName w) =
        (case folderApi E (requests w) folderName of
           Inl err \<Rightarrow> Inl err
         | Inr [] \<Rightarrow> Inl (FolderNotFound folderName)
         | Inr (f # fs) \<Rightarrow> Inr (FolderId (folder_id f)))"
    if "toLowerCase folderName \<notin> {''inbox'', ''sent'', ''drafts'', ''deleted'', ''junk''}"
      and "toLowerCase folderName \<notin> set objectPrototypeKeys"
    using specialFolders_get_none [OF that]
    by (simp add: getFolderId_def issue_def logger_def Let_def split: sum.splits list.splits)
  show ?thesis
    using own [of "''inbox''"] own [of "''sentitems''"] own [of "''drafts''"]
      own [of "''deleteditems''"] own [of "''junkemail''"] other
    by (simp add: specialFolders_def)
qed

lemma toLowerCase_examples:
  "toLowerCase ''Sent'' = ''sent''" "toLowerCase ''Archive'' = ''archive''"
  "toLowerCase ''Projects'' = ''projects''"
  by code_simp+

text \<open>The theorem at a well-known name and at a name without a match.\<close>

theorem folder_resolution_witness:
  "toLowerCase ''Sent'' = ''sent'' \<and>
   getFolderId twoFolders ''Sent'' world0 = (Inr (FolderId ''sentitems''), world0) \<and>
   toLowerCase ''Archive'' \<notin> {''inbox'', ''sent'', ''drafts'', ''deleted'', ''junk''} \<and>
   toLowerCase ''Archive'' \<notin> set objectPrototypeKeys \<and>
   requests (snd (getFolderId twoFolders ''Archive'' world0)) = [FolderLookup ''Archive''] \<and>
   fst (getFolderId twoFolders ''Archive'' world0) = Inl (FolderNotFound ''Archive'')"
  using folder_resolution [of "''Sent''" twoFolders world0]
    folder_resolution [of "''Archive''" twoFolders world0]
  by (simp add: toLowerCase_examples objectPrototypeKeys_def twoFolders_def env0_def
        world0_def)

text \<open>
  The claim as stated fails: a lookup that returns two matches does not fail with
  folder-not-found; the first match is taken.
\<close>

theorem two_matches_counterexample:
  "folderApi twoFolders (requests world0) ''Projects'' =
     Inr [\<lparr>folder_id = ''id-1'', displayName = ''Projects''\<rparr>,
          \<lparr>folder_id = ''id-2'', displayName = ''Projects''\<rparr>] \<and>
   getFolderId twoFolders ''Projects'' world0 =
     (Inr (FolderId ''id-1''), world0\<lparr>requests := [FolderLookup ''Projects'']\<rparr>)"
  by (simp add: getFolderId_def specialFolders_get_def specialFolders_def objectPrototypeKeys_def
        toLowerCase_examples issue_def twoFolders_def env0_def world0_def Let_def)

text \<open>
  The names set aside above: the lookup in the object literal finds the inherited
  property, and it is returned as the folder identifier without a lookup request.
\<close>

lemma inherited_property_returned:
  "getFolderId E ''constructor'' w = (Inr (InheritedProperty ''constructor''), w)"
proof -
  have "toLowerCase ''constructor'' = ''constructor''" by code_simp
  then show ?thesis
    by (simp add: getFolderId_def specialFolders_get_def specialFolders_def
          objectPrototypeKeys_def)
qed

subsection \<open>The count and the download loop\<close>

lemma downloadLoop_done:
  "\<not> (downloadedCount < totalEmails \<and> downloadedCount < limit options) \<Longrightarrow>
   downloadLoop E folderId options totalEmails bSize downloadedCount skipToken w = (Inr (), w)"
  by (subst downloadLoop.simps) auto

lemma requests_logger [simp]: "requests (logger e w) = requests w"
  by (simp add: logger_def)

lemma console_logger [simp]: "console (logger e w) = console w @ [e]"
  by (simp add: logger_def)

lemma requests_issue [simp]: "requests (issue r w) = requests w @ [r]"
  by (simp add: issue_def)

lemma console_issue [simp]: "console (issue r w) = console w"
  by (simp add: issue_def)

lemma requests_saveEmail [simp]: "requests (saveEmail E out email w) = requests w"
  by (simp add: saveEmail_def Bun_write_def logger_def Let_def split: sum.splits)

lemma requests_saveEmailsBatch [simp]: "requests (saveEmailsBatch E emails out w) = requests w"
  by (induction emails arbitrary: w) simp_all

lemma console_saveEmail_ok:
  "formatDate E (receivedDateTime email) \<noteq> None \<Longrightarrow> \<forall>fs p c. diskAccepts E fs p c \<Longrightarrow>
   console (saveEmail E out email w) = console w"
  by (auto simp: saveEmail_def generateEmailFileName_def Bun_write_def Let_def)

lemma console_saveEmailsBatch_ok:
  "\<forall>email\<in>set emails. formatDate E (receivedDateTime email) \<noteq> None \<Longrightarrow>
   \<forall>fs p c. diskAccepts E fs p c \<Longrightarrow>
   console (saveEmailsBatch E emails out w) = console w"
  by (induction emails arbitrary: w) (simp_all add: console_saveEmail_ok)

lemma length_numbered [simp]: "length (numbered n) = n"
  by (simp add: numbered_def)

lemma numbered_dates: "email \<in> set (numbered n) \<Longrightarrow> utcFormat (receivedDateTime email) \<noteq> None"
  by (auto simp: numbered_def mail_def utcFormat_def)

lemma console_saved_page:
  assumes "set emails \<subseteq> set (numbered n)"
  shows "console (saveEmailsBatch (graphServer (numbered n) d) emails out w) = console w"
proof (rule console_saveEmailsBatch_ok)
  have "utcFormat (receivedDateTime email) \<noteq> None" if "email \<in> set emails" for email
    using that assms numbered_dates [of email n] by blast
  then show "\<forall>email\<in>set emails.
          formatDate (graphServer (numbered n) d) (receivedDateTime email) \<noteq> None"
    by (simp add: graphServer_def env0_def)
  show "\<forall>fs p c. diskAccepts (graphServer (numbered n) d) fs p c"
    by (simp add: graphServer_def env0_def)
qed

lemma set_take_drop_subset: "set (take n (drop k xs)) \<subseteq> set xs"
  by (meson in_set_dropD in_set_takeD subsetI)

lemma fetch_page:
  "fetchEmailBatch (graphServer mailbox d) folderId (inboxOptions n) pageSize skip w =
     (Inr (take (nat pageSize) (drop (nat (case skip of None \<Rightarrow> 0 | Some k \<Rightarrow> k)) mailbox)),
      issue (PageQuery folderId None pageSize skip) w)"
  by (simp add: fetchEmailBatch_def buildFilter_def inboxOptions_def graphServer_def Let_def)

lemma downloadLoop_more:
  "downloadedCount < totalEmails \<Longrightarrow> downloadedCount < limit options \<Longrightarrow>
   downloadLoop E folderId options totalEmails bSize downloadedCount skipToken w =
     (let remainingEmails =
            min bSize (min (limit options - downloadedCount) (totalEmails - downloadedCount))
      in case fetchEmailBatch E folderId options remainingEmails skipToken w of
           (Inl err, w1) \<Rightarrow> (Inl err, w1)
         | (Inr emails, w1) \<Rightarrow>
             if length emails = 0 then (Inr (), w1)
             else
               (let w2 = saveEmailsBatch E emails (outputPath options) w1;
                    downloadedCount' = downloadedCount + int (length emails);
                    skipToken' =
                      (if int (length emails) = remainingEmails
                       then Some (getNextPageToken downloadedCount' bSize) else None);
                    w3 = logger (Progress downloadedCount' totalEmails) w2
                in downloadLoop E folderId options totalEmails bSize
                     downloadedCount' skipToken' w3))"
  by (subst downloadLoop.simps) simp

lemma limit_inboxOptions [simp]: "limit (inboxOptions n) = n"
  by (simp add: inboxOptions_def)



lemma ticks_logger [simp]: "ticks (logger e w) = ticks w"
  by (simp add: logger_def)

lemma ticks_issue [simp]: "ticks (issue r w) = ticks w"
  by (simp add: issue_def)

lemma ticks_saveEmail_ok:
  "formatDate E (receivedDateTime email) \<noteq> None \<Longrightarrow>
   ticks (saveEmail E out email w) = Suc (ticks w)"
  by (auto simp: saveEmail_def generateEmailFileName_def Bun_write_def Let_def logger_def)

lemma ticks_saveEmailsBatch_ok:
  "\<forall>email\<in>set emails. formatDate E (receivedDateTime email) \<noteq> None \<Longrightarrow>
   ticks (saveEmailsBatch E emails out w) = ticks w + length emails"
  by (induction emails arbitrary: w) (simp_all add: ticks_saveEmail_ok)

lemma ticks_saved_page:
  assumes "set emails \<subseteq> set (numbered n)"
  shows "ticks (saveEmailsBatch (graphServer (numbered n) d) emails out w) =
           ticks w + length emails"
proof (rule ticks_saveEmailsBatch_ok)
  have "utcFormat (receivedDateTime email) \<noteq> None" if "email \<in> set emails" for email
    using that assms numbered_dates [of email n] by blast
  then show "\<forall>email\<in>set emails.
          formatDate (graphServer (numbered n) d) (receivedDateTime email) \<noteq> None"
    by (simp add: graphServer_def env0_def)
qed

lemma fetchAttachmentsFor_length [simp]:
  "length (fst (fetchAttachmentsFor E emails w)) = length emails"
  by (induction emails arbitrary: w) (simp_all add: split_beta Let_def)

lemma ticks_saveEmail_le: "ticks (saveEmail E out email w) \<le> Suc (ticks w)"
  by (simp add: saveEmail_def Bun_write_def logger_def Let_def split: sum.splits)

lemma ticks_saveEmailsBatch_le:
  "ticks (saveEmailsBatch E emails out w) \<le> ticks w + length emails"
proof (induction emails arbitrary: w)
  case Nil
  then show ?case by simp
next
  case (Cons e es)
  have "ticks (saveEmailsBatch E es out (saveEmail E out e w))
          \<le> ticks (saveEmail E out e w) + length es"
    by (rule Cons.IH)
  also have "\<dots> \<le> Suc (ticks w) + length es"
    using ticks_saveEmail_le [of E out e w] by simp
  finally show ?case by simp
qed

lemma ticks_fetchEmailAttachments:
  "ticks (snd (fetchEmailAttachments E emailId w)) = ticks w"
  by (simp add: fetchEmailAttachments_def Let_def split: sum.splits)

lemma ticks_fetchAttachmentsFor:
  "ticks (snd (fetchAttachmentsFor E emails w)) = ticks w"
  by (induction emails arbitrary: w)
    (simp_all add: split_beta Let_def ticks_fetchEmailAttachments)

lemma ticks_fetchEmailBatch:
  "ticks (snd (fetchEmailBatch E folderId options n skipToken w)) = ticks w"
  by (simp add: fetchEmailBatch_def Let_def split_beta ticks_fetchAttachmentsFor logger_def
        issue_def split: sum.splits)

lemma fetchEmailBatch_length:
  assumes "\<forall>history folderId filt n skip page.
       0 < n \<and> pageApi E history folderId filt n skip = Inr page \<longrightarrow> int (length page) \<le> n"
    and "0 < n"
    and "fetchEmailBatch E folderId options n skipToken w = (Inr emails, w1)"
  shows "int (length emails) \<le> n"
proof -
  obtain filt page where "pageApi E (requests w) folderId filt n skipToken = Inr page"
    and "length emails = length page"
    using assms(3)
    by (auto simp: fetchEmailBatch_def Let_def split_beta split: sum.splits if_splits)
  with assms(1,2) show ?thesis by metis
qed

lemma downloadLoop_bounded:
  assumes respects:
    "\<forall>history folderId filt n skip page.
       0 < n \<and> pageApi E history folderId filt n skip = Inr page \<longrightarrow> int (length page) \<le> n"
    and positive: "0 < bSize"
  shows "ticks (snd (downloadLoop E folderId options totalEmails bSize downloadedCount
                       skipToken w))
           \<le> ticks w + nat (totalEmails - downloadedCount)"
  using respects positive
proof (induction E folderId options totalEmails bSize downloadedCount skipToken w
    rule: downloadLoop.induct)
  case (1 E folderId options totalEmails bSize downloadedCount skipToken w)
  show ?case
  proof (cases "downloadedCount < totalEmails \<and> downloadedCount < limit options")
    case False
    then show ?thesis by (simp add: downloadLoop_done)
  next
    case True
    let ?r = "min bSize (min (limit options - downloadedCount) (totalEmails - downloadedCount))"
    obtain res w1 where fetch: "fetchEmailBatch E folderId options ?r skipToken w = (res, w1)"
      by (cases "fetchEmailBatch E folderId options ?r skipToken w")
    have w1: "ticks w1 = ticks w"
      using ticks_fetchEmailBatch [of E folderId options ?r skipToken w] fetch by simp
    show ?thesis
    proof (cases res)
      case (Inl err)
      with True fetch w1 show ?thesis
        by (simp add: downloadLoop_more)
    next
      case (Inr emails)
      show ?thesis
      proof (cases "length emails = 0")
        case True
        with \<open>downloadedCount < totalEmails \<and> downloadedCount < limit options\<close> Inr fetch w1
        show ?thesis
          by (simp add: downloadLoop_more)
      next
        case False
        let ?dc = "downloadedCount + int (length emails)"
        let ?tok = "if int (length emails) = ?r then Some (getNextPageToken ?dc bSize) else None"
        let ?w3 = "logger (Progress ?dc totalEmails)
                     (saveEmailsBatch E emails (outputPath options) w1)"
        have "0 < ?r"
          using \<open>downloadedCount < totalEmails \<and> downloadedCount < limit options\<close>
            "1.prems"(2) by simp
        then have len: "int (length emails) \<le> ?r"
          using fetch Inr
          by (intro fetchEmailBatch_length [OF "1.prems"(1), of ?r folderId options skipToken w
                emails w1]) simp_all
        have step: "ticks ?w3 \<le> ticks w + length emails"
          using ticks_saveEmailsBatch_le [of E emails "outputPath options" w1] w1
          by (simp add: logger_def)
        have "ticks (snd (downloadLoop E folderId options totalEmails bSize ?dc ?tok ?w3))
                \<le> ticks ?w3 + nat (totalEmails - ?dc)"
          by (rule "1.IH" [OF True refl fetch [symmetric] Inr False refl refl refl refl
                "1.prems"])
        also have "\<dots> \<le> ticks w + length emails + nat (totalEmails - ?dc)"
          using step by simp
        also have "\<dots> = ticks w + nat (totalEmails - downloadedCount)"
          using len by (simp add: min_def split: if_splits)
        finally show ?thesis
          using True Inr fetch False by (simp add: downloadLoop_more Let_def)
      qed
    qed
  qed
qed

text \<open>
  C8. With a filter that can be built, \<open>getEmailCount\<close> issues the count query and
  returns the minimum of the reported count and the caller's limit, taking a body that is
  not a number as 0. \<open>downloadEmails\<close> hands exactly that minimum to the batch loop as
  its total (or stops at once when it is 0). When the body is not a number the run
  completes successfully, and the count query is the last request it issues: no page is
  fetched. The loop started with that total reads the clock at most min(count, limit)
  times, that is, it writes at most that many records to the staging directory (one
  clock read per record), provided the batch size is not negative and no page holds
  more records than a positive \<open>$top\<close> asked for.
\<close>

theorem count_clamped_to_limit:
  "buildFilter options = Inr filt \<longrightarrow>
     (countApi E (requests w) folderId filt = Inr (Number n) \<longrightarrow>
        getEmailCount E folderId options w =
          (Inr (min n (limit options)), issue (CountQuery folderId filt) w)) \<and>
     (countApi E (requests w) folderId filt = Inr NotANumber \<longrightarrow>
        getEmailCount E folderId options w =
          (Inr (min 0 (limit options)), issue (CountQuery folderId filt) w)) \<and>
     (getAccessToken E w0 = (Some token, w1) \<and> token \<noteq> [] \<and>
      ensureOutputDirectory E (outputPath options) w1 = Inr w2 \<and>
      getFolderId E (folder options) w2 = (Inr folderId, w) \<longrightarrow>
        (countApi E (requests w) folderId filt = Inr (Number n) \<longrightarrow>
           downloadEmails E options w0 =
             (if min n (limit options) = 0 then (Inr (), issue (CountQuery folderId filt) w)
              else downloadEmailsBatch E folderId options (min n (limit options))
                     (issue (CountQuery folderId filt) w))) \<and>
        (countApi E (requests w) folderId filt = Inr NotANumber \<longrightarrow>
           downloadEmails E options w0 = (Inr (), issue (CountQuery folderId filt) w))) \<and>
     ((\<forall>history folderId filt n skip page.
         0 < n \<and> pageApi E history folderId filt n skip = Inr page \<longrightarrow>
           int (length page) \<le> n) \<and>
      (\<forall>b. batchSize options = Some b \<longrightarrow> 0 \<le> b) \<longrightarrow>
        ticks (snd (downloadEmailsBatch E folderId options (min n (limit options)) w'))
          \<le> ticks w' + nat (min n (limit options)))"
proof -
  have bounded: "ticks (snd (downloadEmailsBatch E folderId options (min n (limit options)) w'))
          \<le> ticks w' + nat (min n (limit options))"
    if respects: "\<forall>history folderId filt n skip page.
         0 < n \<and> pageApi E history folderId filt n skip = Inr page \<longrightarrow>
           int (length page) \<le> n"
      and sizes: "\<forall>b. batchSize options = Some b \<longrightarrow> 0 \<le> b"
  proof -
    let ?bSize = "case batchSize options of None \<Rightarrow> 50 | Some b \<Rightarrow> if b = 0 then 50 else b"
    have "0 < ?bSize"
      using sizes by (auto split: option.splits)
    from downloadLoop_bounded [OF respects this, of folderId options "min n (limit options)"
        0 None w']
    show ?thesis
      by (simp add: downloadEmailsBatch_def Let_def)
  qed
  show ?thesis
    using bounded
    by (auto simp: getEmailCount_def downloadEmails_def downloadEmailsBatch_def Let_def
          downloadLoop_done min_def)
qed

text \<open>
  The theorem at a count of 3 with limit 2, and at a count that is not a number with
  limit 1000.
\<close>

theorem count_clamped_to_limit_witness:
  "buildFilter (inboxOptions 1000) = Inr None \<and>
   getEmailCount (graphServer threeMails (Number 3)) (FolderId ''inbox'') (inboxOptions 2) signedIn =
     (Inr 2, signedIn\<lparr>requests := [CountQuery (FolderId ''inbox'') None]\<rparr>) \<and>
   countApi oddCount [] (FolderId ''inbox'') None = Inr NotANumber \<and>
   getEmailCount oddCount (FolderId ''inbox'') (inboxOptions 1000) signedIn =
     (Inr 0, signedIn\<lparr>requests := [CountQuery (FolderId ''inbox'') None]\<rparr>) \<and>
   downloadEmails oddCount (inboxOptions 1000) signedIn =
     (Inr (), signedIn\<lparr>ticks := 1, files := [''./emails/.keep'' \<mapsto> RawText []],
                requests := [CountQuery (FolderId ''inbox'') None]\<rparr>) \<and>
   ticks (snd (downloadEmailsBatch (graphServer threeMails (Number 3)) (FolderId ''inbox'')
                 (inboxOptions 2) 2 signedIn)) = 2"
  using count_clamped_to_limit [of "inboxOptions 1000" None oddCount
      "signedIn\<lparr>ticks := 1, files := [''./emails/.keep'' \<mapsto> RawText []]\<rparr>"
      "FolderId ''inbox''" 0 signedIn "''token''" "signedIn\<lparr>ticks := 1\<rparr>"
      "signedIn\<lparr>ticks := 1, files := [''./emails/.keep'' \<mapsto> RawText []]\<rparr>"]
    count_clamped_to_limit [of "inboxOptions 2" None "graphServer threeMails (Number 3)"
      signedIn "FolderId ''inbox''" 3 _ _ _ _ signedIn]
    count_clamped_to_limit [of "inboxOptions 1000" None oddCount
      signedIn "FolderId ''inbox''" 0]
  by (simp add: inboxOptions_def buildFilter_def oddCount_def graphServer_def env0_def
        signedIn_def world0_def validToken_def issue_def getAccessToken_def isTokenValid_def
        getCachedToken_def ensureOutputDirectory_def Bun_write_def join_def getFolderId_def
        specialFolders_get_def specialFolders_def toLowerCase_def lower_char_def Let_def
        downloadEmailsBatch_def downloadLoop_more downloadLoop_done fetchEmailBatch_def
        getNextPageToken_def threeMails_def mail_def utcFormat_def saveEmail_def
        generateEmailFileName_def logger_def)

lemma stale_total_loop:
  "downloadLoop (graphServer (numbered 123) (Number 200)) (FolderId ''inbox'')
     (inboxOptions 1000) 200 50 0 None w = (r, w') \<Longrightarrow>
   r = Inr () \<and>
   requests w' = requests w @
     [PageQuery (FolderId ''inbox'') None 50 None,
      PageQuery (FolderId ''inbox'') None 50 (Some 50),
      PageQuery (FolderId ''inbox'') None 50 (Some 100),
      PageQuery (FolderId ''inbox'') None 50 None,
      PageQuery (FolderId ''inbox'') None 27 (Some 173)] \<and>
   console w' = console w @
     [Progress 50 200, Progress 100 200, Progress 123 200, Progress 173 200] \<and>
   ticks w' = ticks w + 173"
  by (auto simp: downloadLoop_more downloadLoop_done fetch_page Let_def
      getNextPageToken_def console_saved_page ticks_saved_page set_take_subset set_drop_subset
      set_take_drop_subset)

text \<open>
  C1 (the code departs from the claim). A mailbox of 123 messages is served with
  \<open>$top\<close>/\<open>$skip\<close> semantics, the count query answers a stale 200, the limit is
  1000 and the batch size is the default 50. The pages have sizes 50, 50 and 23. After
  the short third page the loop does not stop: the token is null and 123 is below the
  declared total, so a fourth request is issued without \<open>$skip\<close> and returns the first
  50 messages again; a fifth request (27 from offset 173) comes back empty and ends the
  loop. Five page requests are issued and 173 records are written to the staging
  directory (one clock read each, after the one read of the token check).
\<close>

theorem stale_total_refetches_first_page:
  "length (numbered 123) = 123 \<and>
   fst (downloadEmails (graphServer (numbered 123) (Number 200)) (inboxOptions 1000) signedIn) =
     Inr () \<and>
   requests (snd (downloadEmails (graphServer (numbered 123) (Number 200)) (inboxOptions 1000)
                    signedIn)) =
     [CountQuery (FolderId ''inbox'') None,
      PageQuery (FolderId ''inbox'') None 50 None,
      PageQuery (FolderId ''inbox'') None 50 (Some 50),
      PageQuery (FolderId ''inbox'') None 50 (Some 100),
      PageQuery (FolderId ''inbox'') None 50 None,
      PageQuery (FolderId ''inbox'') None 27 (Some 173)] \<and>
   console (snd (downloadEmails (graphServer (numbered 123) (Number 200)) (inboxOptions 1000)
                   signedIn)) =
     [Progress 50 200, Progress 100 200, Progress 123 200, Progress 173 200] \<and>
   ticks (snd (downloadEmails (graphServer (numbered 123) (Number 200)) (inboxOptions 1000)
                 signedIn)) = 1 + 173"
proof -
  let ?E = "graphServer (numbered 123) (Number 200)"
  let ?w = "issue (CountQuery (FolderId ''inbox'') None)
              (signedIn\<lparr>ticks := 1, files := [''./emails/.keep'' \<mapsto> RawText []]\<rparr>)"
  have run: "downloadEmails ?E (inboxOptions 1000) signedIn =
               downloadLoop ?E (FolderId ''inbox'') (inboxOptions 1000) 200 50 0 None ?w"
    by (simp add: downloadEmails_def downloadEmailsBatch_def getEmailCount_def
          inboxOptions_def buildFilter_def graphServer_def env0_def
          signedIn_def world0_def validToken_def issue_def getAccessToken_def isTokenValid_def
          getCachedToken_def ensureOutputDirectory_def Bun_write_def join_def getFolderId_def
          specialFolders_get_def specialFolders_def toLowerCase_def lower_char_def Let_def)
  obtain r w' where loop:
    "downloadLoop ?E (FolderId ''inbox'') (inboxOptions 1000) 200 50 0 None ?w = (r, w')"
    by (cases "downloadLoop ?E (FolderId ''inbox'') (inboxOptions 1000) 200 50 0 None ?w")
  have start: "requests ?w = [CountQuery (FolderId ''inbox'') None]" "console ?w = []"
    "ticks ?w = 1"
    by (simp_all add: signedIn_def world0_def)
  from stale_total_loop [OF loop] show ?thesis
    unfolding run loop start by simp
qed

subsection \<open>Attachments\<close>

lemma requests_fetchEmailAttachments [simp]:
  "requests (snd (fetchEmailAttachments E emailId w)) = requests w @ [AttachmentQuery emailId]"
  by (simp add: fetchEmailAttachments_def Let_def split: sum.splits)

lemma fst_fetchEmailAttachments:
  "fst (fetchEmailAttachments E emailId w) =
     (case attachmentApi E (requests w) emailId of Inl err \<Rightarrow> [] | Inr value \<Rightarrow> value)"
  by (simp add: fetchEmailAttachments_def Let_def split: sum.splits)

lemma fetchAttachmentsFor_nth:
  "i < length emails \<Longrightarrow>
   fst (fetchAttachmentsFor E emails w) ! i =
     (if hasAttachments (emails ! i)
      then (emails ! i)\<lparr>attachments := Some
             (case attachmentApi E
                     (requests w @
                      map (\<lambda>email. AttachmentQuery (email_id email))
                        (filter hasAttachments (take i emails)))
                     (email_id (emails ! i)) of
                Inl err \<Rightarrow> []
              | Inr value \<Rightarrow> value)\<rparr>
      else emails ! i)"
proof (induction emails arbitrary: i w)
  case Nil
  then show ?case by simp
next
  case (Cons email emails)
  show ?case
  proof (cases i)
    case 0
    then show ?thesis
      by (simp add: split_beta Let_def fst_fetchEmailAttachments)
  next
    case (Suc j)
    with Cons.prems have j: "j < length emails" by simp
    show ?thesis
      using Cons.IH [OF j] Suc by (simp add: split_beta Let_def)
  qed
qed


lemma files_saveEmail_mono: "files w p \<noteq> None \<Longrightarrow> files (saveEmail E out email w) p \<noteq> None"
  by (simp add: saveEmail_def Bun_write_def logger_def Let_def split: sum.splits)

lemma files_saveEmailsBatch_mono:
  "files w p \<noteq> None \<Longrightarrow> files (saveEmailsBatch E emails out w) p \<noteq> None"
proof (induction emails arbitrary: w)
  case Nil
  then show ?case by simp
next
  case (Cons e es)
  from Cons.prems have "files (saveEmail E out e w) p \<noteq> None"
    by (rule files_saveEmail_mono)
  then have "files (saveEmailsBatch E es out (saveEmail E out e w)) p \<noteq> None"
    by (rule Cons.IH)
  then show ?case by simp
qed

lemma saveEmailsBatch_stages_all:
  assumes "\<forall>fs p c. diskAccepts E fs p c"
    and "email \<in> set emails"
    and "generateEmailFileName E email = Inr fileName"
  shows "files (saveEmailsBatch E emails out w) (join out fileName) \<noteq> None"
  using assms(2)
proof (induction emails arbitrary: w)
  case Nil
  then show ?case by simp
next
  case (Cons e es)
  show ?case
  proof (cases "email = e")
    case True
    have "files (saveEmail E out e w) (join out fileName) \<noteq> None"
      using assms(1,3) True by (simp add: saveEmail_def Bun_write_def Let_def)
    then show ?thesis by (simp add: files_saveEmailsBatch_mono)
  next
    case False
    with Cons.prems have "email \<in> set es" by simp
    then show ?thesis by (simp add: Cons.IH)
  qed
qed

text \<open>
  C5. When attachments are requested and the page request succeeds, \<open>fetchEmailBatch\<close>
  returns normally with as many records as the page has. A flagged record whose
  attachment request fails (given the requests issued before it) carries an empty
  attachment list, a flagged record whose request succeeds carries the fetched list, and
  an unflagged record is returned as it came. When the disk accepts the writes and the
  dates can be formatted, every record of the batch is present in the staging directory
  after the batch is saved.
\<close>

theorem attachment_failures_isolated:
  "buildFilter options = Inr filt \<and> includeAttachments options \<and>
   pageApi E (requests w) folderId filt bSize skipToken = Inr emails \<longrightarrow>
     (\<exists>emails' w'.
        fetchEmailBatch E folderId options bSize skipToken w = (Inr emails', w') \<and>
        length emails' = length emails \<and>
        (\<forall>i<length emails.
           emails' ! i =
             (if hasAttachments (emails ! i)
              then (emails ! i)\<lparr>attachments := Some
                     (case attachmentApi E
                             (requests w @ PageQuery folderId filt bSize skipToken #
                              map (\<lambda>email. AttachmentQuery (email_id email))
                                (filter hasAttachments (take i emails)))
                             (email_id (emails ! i)) of
                        Inl err \<Rightarrow> []
                      | Inr value \<Rightarrow> value)\<rparr>
              else emails ! i)) \<and>
        ((\<forall>fs p c. diskAccepts E fs p c) \<and>
         (\<forall>email\<in>set emails. formatDate E (receivedDateTime email) \<noteq> None) \<longrightarrow>
           (\<forall>i<length emails. \<exists>fileName.
              generateEmailFileName E (emails' ! i) = Inr fileName \<and>
              files (saveEmailsBatch E emails' out w') (join out fileName) \<noteq> None)))"
proof (intro impI, elim conjE)
  assume f: "buildFilter options = Inr filt" and inc: "includeAttachments options"
    and page: "pageApi E (requests w) folderId filt bSize skipToken = Inr emails"
  let ?w1 = "issue (PageQuery folderId filt bSize skipToken) w"
  let ?emails' = "fst (fetchAttachmentsFor E emails ?w1)"
  let ?w' = "snd (fetchAttachmentsFor E emails ?w1)"
  have run: "fetchEmailBatch E folderId options bSize skipToken w = (Inr ?emails', ?w')"
    using f inc page by (simp add: fetchEmailBatch_def Let_def split_beta)
  have nth: "?emails' ! i =
             (if hasAttachments (emails ! i)
              then (emails ! i)\<lparr>attachments := Some
                     (case attachmentApi E
                             (requests w @ PageQuery folderId filt bSize skipToken #
                              map (\<lambda>email. AttachmentQuery (email_id email))
                                (filter hasAttachments (take i emails)))
                             (email_id (emails ! i)) of
                        Inl err \<Rightarrow> []
                      | Inr value \<Rightarrow> value)\<rparr>
              else emails ! i)" if "i < length emails" for i
    using fetchAttachmentsFor_nth [OF that, of E ?w1] by (simp add: issue_def)
  have staged: "\<exists>fileName. generateEmailFileName E (?emails' ! i) = Inr fileName \<and>
              files (saveEmailsBatch E ?emails' out ?w') (join out fileName) \<noteq> None"
    if disk: "\<forall>fs p c. diskAccepts E fs p c"
      and dates: "\<forall>email\<in>set emails. formatDate E (receivedDateTime email) \<noteq> None"
      and i: "i < length emails" for i
  proof -
    have "receivedDateTime (?emails' ! i) = receivedDateTime (emails ! i)"
      using nth [OF i] by simp
    moreover have "formatDate E (receivedDateTime (emails ! i)) \<noteq> None"
      using dates i by simp
    ultimately obtain fileName where n: "generateEmailFileName E (?emails' ! i) = Inr fileName"
      by (auto simp: generateEmailFileName_def)
    have "?emails' ! i \<in> set ?emails'" using i by simp
    from saveEmailsBatch_stages_all [OF disk this n] n show ?thesis by blast
  qed
  show "\<exists>emails' w'.
        fetchEmailBatch E folderId options bSize skipToken w = (Inr emails', w') \<and>
        length emails' = length emails \<and>
        (\<forall>i<length emails.
           emails' ! i =
             (if hasAttachments (emails ! i)
              then (emails ! i)\<lparr>attachments := Some
                     (case attachmentApi E
                             (requests w @ PageQuery folderId filt bSize skipToken #
                              map (\<lambda>email. AttachmentQuery (email_id email))
                                (filter hasAttachments (take i emails)))
                             (email_id (emails ! i)) of
                        Inl err \<Rightarrow> []
                      | Inr value \<Rightarrow> value)\<rparr>
              else emails ! i)) \<and>
        ((\<forall>fs p c. diskAccepts E fs p c) \<and>
         (\<forall>email\<in>set emails. formatDate E (receivedDateTime email) \<noteq> None) \<longrightarrow>
           (\<forall>i<length emails. \<exists>fileName.
              generateEmailFileName E (emails' ! i) = Inr fileName \<and>
              files (saveEmailsBatch E emails' out w') (join out fileName) \<noteq> None))"
    using run nth staged by (intro exI [of _ ?emails'] exI [of _ ?w']) simp
qed


text \<open>
  The theorem at five flagged records of which the third fails: five records are
  returned and staged, four with their attachment and one with an empty list.
\<close>

theorem attachment_failures_isolated_witness:
  "buildFilter withAttachments = Inr None \<and> includeAttachments withAttachments \<and>
   pageApi flakyAttachments [] (FolderId ''inbox'') None 5 None = Inr fiveFlagged \<and>
   attachmentApi flakyAttachments [] ''m3'' = Inl (RequestFailed ''503'') \<and>
   fst (fetchEmailBatch flakyAttachments (FolderId ''inbox'') withAttachments 5 None world0) =
     Inr [(flagged ''m1'')\<lparr>attachments := Some [pdf ''m1'']\<rparr>,
          (flagged ''m2'')\<lparr>attachments := Some [pdf ''m2'']\<rparr>,
          (flagged ''m3'')\<lparr>attachments := Some []\<rparr>,
          (flagged ''m4'')\<lparr>attachments := Some [pdf ''m4'']\<rparr>,
          (flagged ''m5'')\<lparr>attachments := Some [pdf ''m5'']\<rparr>] \<and>
   fst (downloadEmails flakyAttachments withAttachments signedIn) = Inr () \<and>
   files (snd (downloadEmails flakyAttachments withAttachments signedIn)) =
     [''./emails/.keep'' \<mapsto> RawText [],
      ''./emails/2024-01-15_10-30-00_Report_m1.json'' \<mapsto>
        EmailJson ((flagged ''m1'')\<lparr>attachments := Some [pdf ''m1'']\<rparr>) 1000,
      ''./emails/2024-01-15_10-30-00_Report_m2.json'' \<mapsto>
        EmailJson ((flagged ''m2'')\<lparr>attachments := Some [pdf ''m2'']\<rparr>) 2000,
      ''./emails/2024-01-15_10-30-00_Report_m3.json'' \<mapsto>
        EmailJson ((flagged ''m3'')\<lparr>attachments := Some []\<rparr>) 3000,
      ''./emails/2024-01-15_10-30-00_Report_m4.json'' \<mapsto>
        EmailJson ((flagged ''m4'')\<lparr>attachments := Some [pdf ''m4'']\<rparr>) 4000,
      ''./emails/2024-01-15_10-30-00_Report_m5.json'' \<mapsto>
        EmailJson ((flagged ''m5'')\<lparr>attachments := Some [pdf ''m5'']\<rparr>) 5000]"
  using attachment_failures_isolated [of withAttachments None flakyAttachments world0
      "FolderId ''inbox''" 5 None fiveFlagged "''./emails''"]
  by (simp add: withAttachments_def flakyAttachments_def fiveFlagged_def flagged_def pdf_def
        mail_def utcFormat_def
        downloadEmails_def downloadEmailsBatch_def getEmailCount_def
        downloadLoop_more downloadLoop_done getNextPageToken_def
        fetchEmailBatch_def fetchEmailAttachments_def
        inboxOptions_def buildFilter_def graphServer_def env0_def
        signedIn_def world0_def validToken_def issue_def getAccessToken_def isTokenValid_def
        getCachedToken_def ensureOutputDirectory_def Bun_write_def join_def getFolderId_def
        specialFolders_get_def specialFolders_def toLowerCase_def lower_char_def Let_def
        saveEmail_def generateEmailFileName_def subject_slug_def strip_unsafe_def is_safe_def
        is_alnum_def is_space_def logger_def)

section \<open>Properties of the full pipeline\<close>

lemma files_logger [simp]: "files (logger e w) = files w"
  by (simp add: logger_def)

lemma files_issue [simp]: "files (issue r w) = files w"
  by (simp add: issue_def)

lemma files_fetchEmailAttachments [simp]:
  "files (snd (fetchEmailAttachments E emailId w)) = files w"
  by (simp add: fetchEmailAttachments_def Let_def split: sum.splits)

lemma files_fetchAttachmentsFor [simp]:
  "files (snd (fetchAttachmentsFor E emails w)) = files w"
  by (induction emails arbitrary: w) (simp_all add: split_beta Let_def)

lemma files_fetchEmailBatch [simp]:
  "files (snd (fetchEmailBatch E folderId options bSize skipToken w)) = files w"
  by (simp add: fetchEmailBatch_def Let_def split_beta split: sum.splits)

lemma files_downloadLoop_mono:
  "files w p \<noteq> None \<Longrightarrow>
   files (snd (downloadLoop E folderId options totalEmails bSize downloadedCount skipToken w)) p
     \<noteq> None"
proof (induction E folderId options totalEmails bSize downloadedCount skipToken w
    rule: downloadLoop.induct)
  case (1 E folderId options totalEmails bSize downloadedCount skipToken w)
  show ?case
  proof (cases "downloadedCount < totalEmails \<and> downloadedCount < limit options")
    case False
    then show ?thesis using "1.prems" by (simp add: downloadLoop_done)
  next
    case True
    let ?r = "min bSize (min (limit options - downloadedCount) (totalEmails - downloadedCount))"
    obtain res w1 where fetch: "fetchEmailBatch E folderId options ?r skipToken w = (res, w1)"
      by (cases "fetchEmailBatch E folderId options ?r skipToken w")
    have w1: "files w1 = files w"
      using files_fetchEmailBatch [of E folderId options ?r skipToken w] fetch by simp
    show ?thesis
    proof (cases res)
      case (Inl err)
      with True fetch w1 "1.prems" show ?thesis
        by (simp add: downloadLoop_more)
    next
      case (Inr emails)
      show ?thesis
      proof (cases "length emails = 0")
        case True
        with \<open>downloadedCount < totalEmails \<and> downloadedCount < limit options\<close> Inr fetch w1
          "1.prems" show ?thesis
          by (simp add: downloadLoop_more)
      next
        case False
        have "files (logger (Progress (downloadedCount + int (length emails)) totalEmails)
                (saveEmailsBatch E emails (outputPath options) w1)) p \<noteq> None"
          using "1.prems" w1 by (simp add: files_saveEmailsBatch_mono)
        from "1.IH" [OF True refl fetch [symmetric] Inr False refl refl refl refl this]
        show ?thesis
          using True Inr fetch False by (simp add: downloadLoop_more Let_def)
      qed
    qed
  qed
qed

lemma files_isTokenValid [simp]: "files (snd (isTokenValid E token w)) = files w"
  by (simp add: isTokenValid_def Let_def split: expiry.splits)

lemma files_isAuthenticated [simp]: "files (snd (isAuthenticated E w)) = files w"
  by (simp add: isAuthenticated_def split: option.splits)

lemma files_cacheToken [simp]: "files (cacheToken E token w) = files w"
  by (simp add: cacheToken_def)

lemma files_getAccessToken [simp]: "files (snd (getAccessToken E w)) = files w"
  by (simp add: getAccessToken_def getCachedToken_def Let_def split_beta
        split: option.splits sum.splits)

lemma files_getFolderId [simp]: "files (snd (getFolderId E folderName w)) = files w"
  by (simp add: getFolderId_def Let_def split: option.splits sum.splits list.splits)

lemma files_getEmailCount [simp]: "files (snd (getEmailCount E folderId options w)) = files w"
  by (simp add: getEmailCount_def Let_def split: sum.splits)

lemma files_ensureOutputDirectory_mono:
  "ensureOutputDirectory E out w = Inr w' \<Longrightarrow> files w p \<noteq> None \<Longrightarrow> files w' p \<noteq> None"
  by (auto simp: ensureOutputDirectory_def Bun_write_def split: if_splits)

lemma files_downloadEmails_mono:
  assumes "files w p \<noteq> None"
  shows "files (snd (downloadEmails E options w)) p \<noteq> None"
proof -
  obtain tok w1 where tok: "getAccessToken E w = (tok, w1)"
    by (cases "getAccessToken E w")
  have w1: "files w1 p \<noteq> None"
    using files_getAccessToken [of E w] tok assms by simp
  show ?thesis
  proof (cases "tok = None \<or> tok = Some []")
    case True
    with tok w1 show ?thesis by (auto simp: downloadEmails_def)
  next
    case False
    then obtain token where token: "tok = Some token" "token \<noteq> []" by auto
    show ?thesis
    proof (cases "ensureOutputDirectory E (outputPath options) w1")
      case (Inl err)
      with tok token w1 show ?thesis by (simp add: downloadEmails_def)
    next
      case (Inr w2)
      have w2: "files w2 p \<noteq> None"
        using files_ensureOutputDirectory_mono [OF Inr w1] .
      obtain fr w3 where fr: "getFolderId E (folder options) w2 = (fr, w3)"
        by (cases "getFolderId E (folder options) w2")
      have w3: "files w3 p \<noteq> None"
        using files_getFolderId [of E "folder options" w2] fr w2 by simp
      show ?thesis
      proof (cases fr)
        case (Inl err)
        with tok token Inr fr w3 show ?thesis by (simp add: downloadEmails_def)
      next
        case folderId: (Inr folderId)
        obtain cr w4 where cr: "getEmailCount E folderId options w3 = (cr, w4)"
          by (cases "getEmailCount E folderId options w3")
        have w4: "files w4 p \<noteq> None"
          using files_getEmailCount [of E folderId options w3] cr w3 by simp
        show ?thesis
        proof (cases cr)
          case (Inl err)
          with tok token Inr fr folderId cr w4 show ?thesis
            by (simp add: downloadEmails_def)
        next
          case total: (Inr totalEmails)
          have "files (snd (downloadEmailsBatch E folderId options totalEmails w4)) p \<noteq> None"
            unfolding downloadEmailsBatch_def Let_def by (rule files_downloadLoop_mono [OF w4])
          with tok token Inr fr folderId cr total w4 show ?thesis
            by (simp add: downloadEmails_def)
        qed
      qed
    qed
  qed
qed

text \<open>
  C6. The \<open>full\<close> command removes the staging directory in one case only: the download
  and the export both returned normally; the exit code is then 0. When the run is not
  authenticated it exits with 1 and the files are untouched. When the download throws it
  exits with 1 and the files are those the download left behind, which include every
  file that existed before the run. When the export throws it exits with 1 and the
  files are those the exporter left behind. The command itself deletes nothing on a
  failure.
\<close>

theorem staging_kept_on_failure:
  "(isAuthenticated E w = (False, w1) \<longrightarrow>
      fst (full_command E X options w) = 1 \<and>
      files (snd (full_command E X options w)) = files w) \<and>
   (isAuthenticated E w = (True, w1) \<longrightarrow>
      (downloadEmails E (fullDownloadOptions options) w1 = (Inl err, w2) \<longrightarrow>
         fst (full_command E X options w) = 1 \<and>
         files (snd (full_command E X options w)) = files w2 \<and>
         (\<forall>p. files w p \<noteq> None \<longrightarrow> files (snd (full_command E X options w)) p \<noteq> None)) \<and>
      (downloadEmails E (fullDownloadOptions options) w1 = (Inr u, w2) \<and>
       X (fullExportOptions options) w2 = (Inl err, w3) \<longrightarrow>
         fst (full_command E X options w) = 1 \<and>
         files (snd (full_command E X options w)) = files w3) \<and>
      (downloadEmails E (fullDownloadOptions options) w1 = (Inr u, w2) \<and>
       X (fullExportOptions options) w2 = (Inr u', w3) \<longrightarrow>
         fst (full_command E X options w) = 0 \<and>
         files (snd (full_command E X options w)) = files (rm_rf ''./temp-emails'' w3)))"
proof -
  have kept: "files w2 p \<noteq> None"
    if "isAuthenticated E w = (True, w1)"
      and "downloadEmails E (fullDownloadOptions options) w1 = (Inl err, w2)"
      and "files w p \<noteq> None" for p
  proof -
    have "files w1 p \<noteq> None"
      using files_isAuthenticated [of E w] that(1,3) by simp
    from files_downloadEmails_mono [OF this, of E "fullDownloadOptions options"] that(2)
    show ?thesis by simp
  qed
  have unauth: "files w1 = files w" if "isAuthenticated E w = (False, w1)"
    using files_isAuthenticated [of E w] that by simp
  show ?thesis
    using kept unauth by (auto simp: full_command_def)
qed

text \<open>
  The theorem at a run whose export fails after three records were staged (they are all
  still there), at a run whose first page request fails (the unit of the earlier run is
  still there), and at a successful run (only the archive is left).
\<close>

theorem staging_kept_on_failure_witness:
  "isAuthenticated (graphServer threeMails (Number 3)) signedIn = (True, signedIn\<lparr>ticks := 1\<rparr>) \<and>
   fst (downloadEmails (graphServer threeMails (Number 3)) (fullDownloadOptions fullOptions)
          (signedIn\<lparr>ticks := 1\<rparr>)) = Inr () \<and>
   fst (failingExporter (fullExportOptions fullOptions)
          (snd (downloadEmails (graphServer threeMails (Number 3))
                  (fullDownloadOptions fullOptions) (signedIn\<lparr>ticks := 1\<rparr>)))) =
     Inl (ExportFailed ''disk full'') \<and>
   fst (full_command (graphServer threeMails (Number 3)) failingExporter fullOptions signedIn) = 1 \<and>
   files (snd (full_command (graphServer threeMails (Number 3)) failingExporter fullOptions
                 signedIn)) =
     [''./temp-emails/.keep'' \<mapsto> RawText [],
      ''./temp-emails/2024-01-15_10-30-00_first_m1.json'' \<mapsto>
         EmailJson (mail ''m1'' ''first'') 2000,
      ''./temp-emails/2024-01-15_10-30-00_second_m2.json'' \<mapsto>
         EmailJson (mail ''m2'' ''second'') 3000,
      ''./temp-emails/2024-01-15_10-30-00_third_m3.json'' \<mapsto>
         EmailJson (mail ''m3'' ''third'') 4000] \<and>
   fst (downloadEmails failingPages (fullDownloadOptions fullOptions)
          (earlierRun\<lparr>ticks := 1\<rparr>)) = Inl (RequestFailed ''500'') \<and>
   fst (full_command failingPages writingExporter fullOptions earlierRun) = 1 \<and>
   files (snd (full_command failingPages writingExporter fullOptions earlierRun)) =
     [''./temp-emails/2024-01-15_10-30-00_first_m1.json'' \<mapsto>
         EmailJson (mail ''m1'' ''first'') 0,
      ''./temp-emails/.keep'' \<mapsto> RawText []] \<and>
   fst (full_command (graphServer threeMails (Number 3)) writingExporter fullOptions signedIn) = 0 \<and>
   files (snd (full_command (graphServer threeMails (Number 3)) writingExporter fullOptions
                 signedIn)) =
     [''./emails.mbox'' \<mapsto> RawText ''From MAILER-DAEMON'']"
  using staging_kept_on_failure [of "graphServer threeMails (Number 3)" signedIn
      "signedIn\<lparr>ticks := 1\<rparr>" failingExporter fullOptions "ExportFailed ''disk full''"
      "snd (downloadEmails (graphServer threeMails (Number 3))
                  (fullDownloadOptions fullOptions) (signedIn\<lparr>ticks := 1\<rparr>))" "()"
      "snd (downloadEmails (graphServer threeMails (Number 3))
                  (fullDownloadOptions fullOptions) (signedIn\<lparr>ticks := 1\<rparr>))"]
  by (simp add: full_command_def fullOptions_def fullDownloadOptions_def fullExportOptions_def
        failingExporter_def writingExporter_def rm_rf_def isAuthenticated_def
        failingPages_def earlierRun_def
        threeMails_def mail_def utcFormat_def
        downloadEmails_def downloadEmailsBatch_def getEmailCount_def
        downloadLoop_more downloadLoop_done getNextPageToken_def
        fetchEmailBatch_def buildFilter_def graphServer_def env0_def
        signedIn_def world0_def validToken_def issue_def getAccessToken_def isTokenValid_def
        getCachedToken_def ensureOutputDirectory_def Bun_write_def join_def getFolderId_def
        specialFolders_get_def specialFolders_def toLowerCase_def lower_char_def Let_def
        saveEmail_def generateEmailFileName_def subject_slug_def strip_unsafe_def is_safe_def
        is_alnum_def is_space_def logger_def fun_eq_iff)

section \<open>Properties of the "From " quoting\<close>

lemma split_lines_not_Nil [simp]: "split_lines s \<noteq> []"
  by (induction s) (auto split: list.splits)

lemma split_lines_no_LF: "l \<in> set (split_lines s) \<Longrightarrow> CHR 0x0A \<notin> set l"
  by (induction s arbitrary: l) (auto split: list.splits if_splits)

lemma split_lines_join:
  "ls \<noteq> [] \<Longrightarrow> \<forall>l\<in>set ls. CHR 0x0A \<notin> set l \<Longrightarrow>
   split_lines (join_with [CHR 0x0A] ls) = ls"
proof (induction "[CHR 0x0A]" ls rule: join_with.induct)
  case 1
  then show ?case by simp
next
  case (2 x)
  then show ?case by (induction x) auto
next
  case (3 x y ys)
  then have rest: "split_lines (join_with [CHR 0x0A] (y # ys)) = y # ys" by simp
  from "3.prems" have "CHR 0x0A \<notin> set x" by simp
  then have "split_lines (x @ CHR 0x0A # join_with [CHR 0x0A] (y # ys)) = x # y # ys"
    using rest by (induction x) auto
  then show ?case by simp
qed

lemma quote_line_no_LF: "CHR 0x0A \<notin> set l \<Longrightarrow> CHR 0x0A \<notin> set (quote_line l)"
  by (simp add: quote_line_def)

lemma From_line_needs_quoting: "is_From_line l \<Longrightarrow> needs_quoting l"
  by (auto simp: needs_quoting_def is_From_line_def prefix_def)

lemma quote_line_not_From: "\<not> is_From_line (quote_line l)"
  using From_line_needs_quoting [of l]
  by (auto simp: quote_line_def is_From_line_def prefix_def)

lemma needs_quoting_replicate:
  "needs_quoting (replicate n (CHR ''>'') @ ''From '' @ rest)"
  by (induction n) (simp_all add: needs_quoting_def is_From_line_def)

text \<open>
  C2. In the content as it is emitted, the lines are the lines of the body, each one
  quoted, and none of them begins with \<open>From \<close>. A line that begins with \<open>From \<close>
  is emitted with one \<open>>\<close> in front, a line that does not begin with \<open>From \<close> after
  any number of \<open>>\<close> is emitted unchanged, and a line that begins with \<open>n\<close>
  characters \<open>>\<close> followed by \<open>From \<close> is emitted with \<open>n + 1\<close> of them.
\<close>

theorem from_lines_quoted:
  "split_lines (quote_content body) = map quote_line (split_lines body) \<and>
   (\<forall>l\<in>set (split_lines (quote_content body)). \<not> is_From_line l) \<and>
   (\<forall>l\<in>set (split_lines body).
      (is_From_line l \<longrightarrow> quote_line l = CHR ''>'' # l) \<and>
      (\<not> needs_quoting l \<longrightarrow> quote_line l = l)) \<and>
   quote_line (replicate n (CHR ''>'') @ ''From '' @ rest) =
     replicate (Suc n) (CHR ''>'') @ ''From '' @ rest"
proof -
  have lines: "split_lines (quote_content body) = map quote_line (split_lines body)"
    unfolding quote_content_def
    by (rule split_lines_join) (auto dest: split_lines_no_LF simp: quote_line_no_LF)
  have escaped: "\<forall>l\<in>set (map quote_line (split_lines body)). \<not> is_From_line l"
    by (simp add: quote_line_not_From)
  have each: "\<forall>l\<in>set (split_lines body).
      (is_From_line l \<longrightarrow> quote_line l = CHR ''>'' # l) \<and>
      (\<not> needs_quoting l \<longrightarrow> quote_line l = l)"
    by (simp add: From_line_needs_quoting quote_line_def)
  have again: "quote_line (replicate n (CHR ''>'') @ ''From '' @ rest) =
     replicate (Suc n) (CHR ''>'') @ ''From '' @ rest"
    using needs_quoting_replicate [of n rest] by (simp add: quote_line_def)
  from lines escaped each again show ?thesis
    by (simp only: simp_thms)
qed

text \<open>The theorem at a body with both kinds of line, and at the two lines of the spec.\<close>

theorem from_lines_quoted_witness:
  "split_lines letter =
     [''Hello,'', ''From hacker@evil.com now'', ''>From already'', ''Fromage is fine''] \<and>
   is_From_line ''From hacker@evil.com now'' \<and>
   split_lines (quote_content letter) =
     [''Hello,'', ''>From hacker@evil.com now'', ''>>From already'', ''Fromage is fine''] \<and>
   quote_content ''From hacker@evil.com now'' = ''>From hacker@evil.com now'' \<and>
   quote_content ''>From already'' = ''>>From already''"
  using from_lines_quoted [of letter 1 "''already''"]
  by (simp add: letter_def quote_content_def quote_line_def needs_quoting_def is_From_line_def)

end
